theory Spec2Isabelle
  imports Main
begin

section \<open>Kafka connection: a model of \<^verbatim>\<open>kafka/connection/kafka_connection.go\<close>\<close>

text \<open>
  Go strings are byte sequences, modelled as \<^typ>\<open>string\<close> (a list of 8-bit characters).
  Everything the Go code obtains from outside the package (the file system, the PEM decoder,
  the sarama constructors, the producer's and consumer's \<^verbatim>\<open>Close\<close>) is a parameter of the
  model; the calls made are recorded, in order, in a list of events, so that statements of
  the form "fails before any file is touched" can be read off the log.
\<close>

subsection \<open>Library functions used by the package: \<^verbatim>\<open>strings.Split\<close>, \<^verbatim>\<open>strconv.Atoi\<close>\<close>

text \<open>
  \<^verbatim>\<open>strings.Split(s, sep)\<close> for a one-byte separator, which is how both call sites use it
  (\<^verbatim>\<open>","\<close> and \<^verbatim>\<open>":"\<close>): the segments between the occurrences of the separator. The empty
  string yields one empty segment.
\<close>

fun Split :: "string \<Rightarrow> char \<Rightarrow> string list" where
  "Split [] sep = [[]]"
| "Split (c # cs) sep =
     (if c = sep then [] # Split cs sep
      else (case Split cs sep of
              [] \<Rightarrow> [[c]]
            | seg # segs \<Rightarrow> (c # seg) # segs))"

definition isDigit :: "char \<Rightarrow> bool" where
  "isDigit c = ((48::nat) \<le> of_char c \<and> of_char c \<le> (57::nat))"

definition digitVal :: "char \<Rightarrow> nat" where
  "digitVal c = of_char c - 48"

datatype NumError = ErrSyntax | ErrRange

definition maxUint64 :: nat where
  "maxUint64 = 18446744073709551615"

definition cutoff64 :: nat where
  "cutoff64 = maxUint64 div 10 + 1"

text \<open>
  The digit loop of \<^verbatim>\<open>strconv.ParseUint(s, 10, 64)\<close>: a byte that is no decimal digit is a
  syntax error, an accumulator that would leave the 64-bit range is a range error, whichever
  comes first. The accumulator is a natural number and the overflow tests are written out.
\<close>

fun parseUintLoop :: "nat \<Rightarrow> string \<Rightarrow> NumError + nat" where
  "parseUintLoop n [] = Inr n"
| "parseUintLoop n (c # cs) =
     (if \<not> isDigit c then Inl ErrSyntax
      else if cutoff64 \<le> n then Inl ErrRange
      else (let n1 = n * 10 + digitVal c
            in if maxUint64 < n1 then Inl ErrRange else parseUintLoop n1 cs))"

definition ParseUint :: "string \<Rightarrow> NumError + nat" where
  "ParseUint s = (if s = [] then Inl ErrSyntax else parseUintLoop 0 s)"

text \<open>
  \<^verbatim>\<open>strconv.ParseInt(s, 10, 0)\<close> with a 64-bit \<^verbatim>\<open>int\<close>: an optional sign, then
  \<^verbatim>\<open>ParseUint\<close>; a range error of \<^verbatim>\<open>ParseUint\<close> carries the maximal value on to the signed
  range test.
\<close>

definition ParseInt :: "string \<Rightarrow> NumError + int" where
  "ParseInt s =
     (case s of
        [] \<Rightarrow> Inl ErrSyntax
      | c # rest \<Rightarrow>
          (let neg = (c = CHR ''-'');
               s1 = (if c = CHR ''+'' \<or> c = CHR ''-'' then rest else s)
           in case ParseUint s1 of
                Inl ErrSyntax \<Rightarrow> Inl ErrSyntax
              | r \<Rightarrow>
                  (let un = (case r of Inr n \<Rightarrow> n | Inl _ \<Rightarrow> maxUint64);
                       cutoff = (2::nat) ^ 63
                   in if \<not> neg \<and> cutoff \<le> un then Inl ErrRange
                      else if neg \<and> cutoff < un then Inl ErrRange
                      else Inr (if neg then - int un else int un))))"

text \<open>The digit loop of the fast path of \<^verbatim>\<open>strconv.Atoi\<close>; \<open>None\<close> is its syntax error.\<close>

fun atoiLoop :: "int \<Rightarrow> string \<Rightarrow> int option" where
  "atoiLoop n [] = Some n"
| "atoiLoop n (ch # rest) =
     (if \<not> isDigit ch then None else atoiLoop (n * 10 + int (digitVal ch)) rest)"

text \<open>
  \<^verbatim>\<open>strconv.Atoi\<close>: strings of 1 to 18 bytes take the fast path (they cannot overflow 64
  bits), all others go through \<^verbatim>\<open>ParseInt\<close>.
\<close>

definition Atoi :: "string \<Rightarrow> NumError + int" where
  "Atoi s =
     (if 0 < length s \<and> length s < 19 then
        (case s of
           [] \<Rightarrow> Inl ErrSyntax
         | c # rest \<Rightarrow>
             (let s1 = (if c = CHR ''-'' \<or> c = CHR ''+'' then rest else s)
              in if (c = CHR ''-'' \<or> c = CHR ''+'') \<and> length s1 < 1 then Inl ErrSyntax
                 else (case atoiLoop 0 s1 of
                         None \<Rightarrow> Inl ErrSyntax
                       | Some n \<Rightarrow> Inr (if c = CHR ''-'' then - n else n))))
      else ParseInt s)"

subsection \<open>\<^verbatim>\<open>validateBrokerUrl\<close> (lines 152-162)\<close>

text \<open>
  The two errors of \<^verbatim>\<open>validateBrokerUrl\<close>: the wrong number of sections, and a port
  specification (quoted in the message) that is not a number between 0 and 32767.
  \<open>None\<close> is Go's \<^verbatim>\<open>nil\<close> error.
\<close>

datatype BrokerUrlError = ErrSections | ErrPort string

definition validateBrokerUrl :: "string \<Rightarrow> BrokerUrlError option" where
  "validateBrokerUrl broker =
     (let hostPort = Split broker CHR '':''
      in if length hostPort \<noteq> 2 then Some ErrSections
         else (case Atoi (hostPort ! 1) of
                 Inl err \<Rightarrow> Some (ErrPort (hostPort ! 1))
               | Inr i \<Rightarrow>
                   if i < 0 \<or> 32767 < i then Some (ErrPort (hostPort ! 1)) else None))"

text \<open>The value of a string of decimal digits, read from the left with a starting value.\<close>

fun decFrom :: "nat \<Rightarrow> string \<Rightarrow> nat" where
  "decFrom n [] = n"
| "decFrom n (c # cs) = decFrom (n * 10 + digitVal c) cs"

definition digits1 :: "string \<Rightarrow> bool" where
  "digits1 ds = (ds \<noteq> [] \<and> list_all isDigit ds)"

text \<open>
  The port specifications the code lets through: an optional sign, then one or more decimal
  digits (any number of them, leading zeros included) whose value is at most 32767, and zero
  after a minus sign.
\<close>

definition portAccepted :: "string \<Rightarrow> bool" where
  "portAccepted p =
     (case p of
        [] \<Rightarrow> False
      | c # ds \<Rightarrow>
          if c = CHR ''+'' then digits1 ds \<and> decFrom 0 ds \<le> 32767
          else if c = CHR ''-'' then digits1 ds \<and> decFrom 0 ds = 0
          else digits1 p \<and> decFrom 0 p \<le> 32767)"

text \<open>
  The specification's shape of an address, \<^verbatim>\<open>^[^:]+:[0-9]{1,5}$\<close> with the numeric part in
  \<open>[0, 32767]\<close>: a non-empty host without colon, a colon, one to five digits.
\<close>

definition specAddress :: "string \<Rightarrow> bool" where
  "specAddress s =
     (let host = takeWhile (\<lambda>c. c \<noteq> CHR '':'') s;
          rest = dropWhile (\<lambda>c. c \<noteq> CHR '':'') s
      in host \<noteq> [] \<and>
         (case rest of
            [] \<Rightarrow> False
          | c # port \<Rightarrow> 1 \<le> length port \<and> length port \<le> 5 \<and> list_all isDigit port
                          \<and> decFrom 0 port \<le> 32767))"

definition inPortRange :: "NumError + int \<Rightarrow> bool" where
  "inPortRange r = (case r of Inl _ \<Rightarrow> False | Inr i \<Rightarrow> 0 \<le> i \<and> i \<le> 32767)"

subsection \<open>Settings and the connection key (lines 16-21, 56-69)\<close>

record Settings =
  BrokerUrls :: string
  User :: string
  Password :: string
  TrustStore :: string

text \<open>
  \<^verbatim>\<open>getConnectionKey\<close>, statement by statement: \<^verbatim>\<open>connKey\<close> starts empty and is extended
  three times.
\<close>

definition getConnectionKey :: "Settings \<Rightarrow> string" where
  "getConnectionKey settings =
     (let connKey0 = [];
          connKey1 = connKey0 @ BrokerUrls settings;
          connKey2 = (if TrustStore settings \<noteq> [] then connKey1 @ TrustStore settings else connKey1);
          connKey3 = (if User settings \<noteq> [] then connKey2 @ User settings else connKey2)
      in connKey3)"

text \<open>
  The key as the specification words it: the broker list, then the trust-store path if it
  is not empty, then the user name if it is not empty, with nothing in between.
\<close>

definition specConnectionKey :: "Settings \<Rightarrow> string" where
  "specConnectionKey settings =
     concat [BrokerUrls settings,
             (if TrustStore settings = [] then [] else TrustStore settings),
             (if User settings = [] then [] else User settings)]"

subsection \<open>Certificates, client configuration, events and errors\<close>

text \<open>
  Of an \<^verbatim>\<open>x509.Certificate\<close> the pool looks at the raw encoding (two certificates are the
  same when their raw bytes are) and at the raw subject. A \<^verbatim>\<open>CertPool\<close> is the list of its
  certificates in insertion order; \<^verbatim>\<open>AddCert\<close> does not add a certificate twice, and
  \<^verbatim>\<open>Subjects\<close> lists one subject per certificate.
\<close>

record Certificate =
  Raw :: string
  RawSubject :: string

type_synonym CertPool = "Certificate list"

definition NewCertPool :: CertPool where
  "NewCertPool = []"

definition poolContains :: "CertPool \<Rightarrow> Certificate \<Rightarrow> bool" where
  "poolContains pool cert = list_ex (\<lambda>c. Raw c = Raw cert) pool"

definition AddCert :: "CertPool \<Rightarrow> Certificate \<Rightarrow> CertPool" where
  "AddCert pool cert = (if poolContains pool cert then pool else pool @ [cert])"

definition Subjects :: "CertPool \<Rightarrow> string list" where
  "Subjects pool = map RawSubject pool"

text \<open>
  \<^verbatim>\<open>AppendCertsFromPEM\<close> adds every certificate that decodes from the data and reports
  whether there was one. The decoder is a parameter: \<open>decode bytes\<close> is the list of the
  certificates found in the \<^verbatim>\<open>CERTIFICATE\<close> blocks of \<open>bytes\<close> that parse.
\<close>

definition AppendCertsFromPEM ::
  "(string \<Rightarrow> Certificate list) \<Rightarrow> CertPool \<Rightarrow> string \<Rightarrow> CertPool \<times> bool" where
  "AppendCertsFromPEM decode pool pemCerts =
     (foldl AddCert pool (decode pemCerts), decode pemCerts \<noteq> [])"

text \<open>The fields of \<^verbatim>\<open>tls.Config\<close> and \<^verbatim>\<open>sarama.Config\<close> that the package writes.\<close>

record TLSConfig =
  RootCAs :: "CertPool option"
  InsecureSkipVerify :: bool

datatype RequiredAcks = NoResponse | WaitForLocal | WaitForAll

record Config =
  ProducerReturnErrors :: bool
  ProducerReturnSuccesses :: bool
  ProducerRequiredAcks :: RequiredAcks
  ProducerRetryMax :: int
  NetTLSEnable :: bool
  NetTLSConfig :: "TLSConfig option"
  NetSASLEnable :: bool
  NetSASLUser :: string
  NetSASLPassword :: string

text \<open>
  What the TLS client of \<^verbatim>\<open>crypto/tls\<close> does with the chain a server presents, as far as
  the trust pool is concerned (\<^verbatim>\<open>verifyServerCertificate\<close>): the chain is verified against
  \<^verbatim>\<open>RootCAs\<close>, with the host name, only when \<^verbatim>\<open>InsecureSkipVerify\<close> is false; when it is true
  the client "accepts any certificate presented by the server and any host name in that
  certificate". The X.509 verification itself is the parameter \<open>x509Verify\<close>; \<open>True\<close> means
  that the chain is accepted.
\<close>

definition verifyServerCertificate ::
  "(CertPool option \<Rightarrow> Certificate list \<Rightarrow> bool) \<Rightarrow> TLSConfig \<Rightarrow> Certificate list \<Rightarrow> bool" where
  "verifyServerCertificate x509Verify c certs =
     (if \<not> InsecureSkipVerify c then x509Verify (RootCAs c) certs else True)"

text \<open>The log lines of the package, and the calls that leave it, in the order they happen.\<close>

datatype LogMsg =
    MsgBrokers "string list"
  | MsgTruststore string
  | MsgSASL string
  | MsgCertUnreadable string

datatype Event =
    Debugf LogMsg
  | Warnf LogMsg
  | OsStat string
  | IoReadDir string
  | IoReadFile string
  | SaramaNewSyncProducer "string list" Config
  | SaramaNewConsumer "string list" Config

fun isWarning :: "Event \<Rightarrow> bool" where
  "isWarning (Warnf m) = True"
| "isWarning e = False"

fun isFilesystem :: "Event \<Rightarrow> bool" where
  "isFilesystem (OsStat p) = True"
| "isFilesystem (IoReadDir p) = True"
| "isFilesystem (IoReadFile p) = True"
| "isFilesystem e = False"

fun isNetwork :: "Event \<Rightarrow> bool" where
  "isNetwork (SaramaNewSyncProducer bs c) = True"
| "isNetwork (SaramaNewConsumer bs c) = True"
| "isNetwork e = False"

text \<open>
  One constructor for each \<^verbatim>\<open>fmt.Errorf\<close> of the package, with the values its message
  quotes; \<open>'e\<close> is the type of the errors of sarama's constructors.
\<close>

datatype 'e Error =
    ErrNoBroker string
  | ErrBrokerFormat string BrokerUrlError
  | ErrTruststoreNotExist string
  | ErrTruststoreNotDir string
  | ErrTruststoreUnreadable string
  | ErrTruststoreNoCerts string
  | ErrNoPassword string
  | ErrSyncProducer 'e
  | ErrConsumer 'e

text \<open>
  The specification's taxonomy files the two errors of the broker list under
  InvalidConfiguration ("malformed broker list or address").
\<close>

fun specInvalidConfiguration :: "'e Error \<Rightarrow> bool" where
  "specInvalidConfiguration (ErrNoBroker urls) = True"
| "specInvalidConfiguration (ErrBrokerFormat broker reason) = True"
| "specInvalidConfiguration e = False"

subsection \<open>The environment\<close>

text \<open>
  \<^verbatim>\<open>os.Stat\<close> gives a \<^verbatim>\<open>FileInfo\<close> or an error (\<open>None\<close>); the code asks its mode two
  questions. \<^verbatim>\<open>ioutil.ReadDir\<close> gives the names of the entries or an error (\<open>None\<close>).
  \<^verbatim>\<open>ioutil.ReadFile\<close> gives an error or the bytes, which the code compares with \<^verbatim>\<open>nil\<close>
  (\<open>ReadBytes None\<close> is the \<^verbatim>\<open>nil\<close> slice).
\<close>

record FileInfo =
  IsDir :: bool
  IsRegular :: bool

datatype FileRead = ReadError | ReadBytes "string option"

record ('p, 'c, 'e) Env =
  Stat :: "string \<Rightarrow> FileInfo option"
  ReadDir :: "string \<Rightarrow> string list option"
  ReadFile :: "string \<Rightarrow> FileRead"
  PathSeparator :: char
  DecodePEM :: "string \<Rightarrow> Certificate list"
  NewConfig :: Config
  NewSyncProducer :: "string list \<Rightarrow> Config \<Rightarrow> 'e + 'p"
  NewConsumer :: "string list \<Rightarrow> Config \<Rightarrow> 'e + 'c"

subsection \<open>\<^verbatim>\<open>getCerts\<close> (lines 164-200)\<close>

definition certFileName :: "('p, 'c, 'e) Env \<Rightarrow> string \<Rightarrow> string \<Rightarrow> string" where
  "certFileName env trustStore name = trustStore @ [PathSeparator env] @ name"

text \<open>One round of the loop over the directory entries; the state is the pool and the log.\<close>

definition certFileStep ::
  "('p, 'c, 'e) Env \<Rightarrow> string \<Rightarrow> CertPool \<times> Event list \<Rightarrow> string \<Rightarrow> CertPool \<times> Event list" where
  "certFileStep env trustStore st name =
     (let certPool = fst st;
          log = snd st;
          fqfName = certFileName env trustStore name
      in case ReadFile env fqfName of
           ReadError \<Rightarrow> (certPool, log @ [IoReadFile fqfName, Warnf (MsgCertUnreadable name)])
         | ReadBytes None \<Rightarrow> (certPool, log @ [IoReadFile fqfName])
         | ReadBytes (Some trustCertBytes) \<Rightarrow>
             (fst (AppendCertsFromPEM (DecodePEM env) certPool trustCertBytes),
              log @ [IoReadFile fqfName]))"

definition loadCertFiles ::
  "('p, 'c, 'e) Env \<Rightarrow> string \<Rightarrow> string list \<Rightarrow> CertPool \<times> Event list \<Rightarrow> CertPool \<times> Event list" where
  "loadCertFiles env trustStore names st = foldl (certFileStep env trustStore) st names"

text \<open>
  \<^verbatim>\<open>getCerts\<close> returns the pool together with the error, as the Go function does (the pool
  is the empty one on every error path), and the log of what it did.
\<close>

definition getCerts ::
  "('p, 'c, 'e) Env \<Rightarrow> string \<Rightarrow> (CertPool \<times> 'e Error option) \<times> Event list" where
  "getCerts env trustStore =
     (let certPool = NewCertPool
      in case Stat env trustStore of
           None \<Rightarrow> ((certPool, Some (ErrTruststoreNotExist trustStore)), [OsStat trustStore])
         | Some fileInfo \<Rightarrow>
             if \<not> IsDir fileInfo \<and> IsRegular fileInfo
             then ((certPool, Some (ErrTruststoreNotDir trustStore)), [OsStat trustStore])
             else
               (let log = [OsStat trustStore, IoReadDir trustStore]
                in case ReadDir env trustStore of
                     None \<Rightarrow> ((certPool, Some (ErrTruststoreUnreadable trustStore)), log)
                   | Some trustedCertFiles \<Rightarrow>
                       if length trustedCertFiles = 0
                       then ((certPool, Some (ErrTruststoreUnreadable trustStore)), log)
                       else
                         (let st = loadCertFiles env trustStore trustedCertFiles (certPool, log)
                          in if length (Subjects (fst st)) < 1
                             then ((fst st, Some (ErrTruststoreNoCerts trustStore)), snd st)
                             else ((fst st, None), snd st))))"

text \<open>
  Words for the statements about \<^verbatim>\<open>getCerts\<close>: the certificates a directory entry
  contributes (none when it cannot be read or holds no certificate), the entries that are
  valid certificate files (they contribute a certificate), and the entries whose read fails.
\<close>

definition fileCerts :: "('p, 'c, 'e) Env \<Rightarrow> string \<Rightarrow> string \<Rightarrow> Certificate list" where
  "fileCerts env trustStore name =
     (case ReadFile env (certFileName env trustStore name) of
        ReadError \<Rightarrow> []
      | ReadBytes None \<Rightarrow> []
      | ReadBytes (Some bs) \<Rightarrow> DecodePEM env bs)"

definition validCertFile :: "('p, 'c, 'e) Env \<Rightarrow> string \<Rightarrow> string \<Rightarrow> bool" where
  "validCertFile env trustStore name = (fileCerts env trustStore name \<noteq> [])"

definition corruptCertFile :: "('p, 'c, 'e) Env \<Rightarrow> string \<Rightarrow> string \<Rightarrow> bool" where
  "corruptCertFile env trustStore name = (\<not> validCertFile env trustStore name)"

definition unreadableFile :: "('p, 'c, 'e) Env \<Rightarrow> string \<Rightarrow> string \<Rightarrow> bool" where
  "unreadableFile env trustStore name =
     (ReadFile env (certFileName env trustStore name) = ReadError)"

definition warnings :: "Event list \<Rightarrow> Event list" where
  "warnings log = filter isWarning log"

text \<open>What one round of the loop adds to the log: the read, and a warning when it failed.\<close>

definition certFileEvents :: "('p, 'c, 'e) Env \<Rightarrow> string \<Rightarrow> string \<Rightarrow> Event list" where
  "certFileEvents env trustStore name =
     (if unreadableFile env trustStore name
      then [IoReadFile (certFileName env trustStore name), Warnf (MsgCertUnreadable name)]
      else [IoReadFile (certFileName env trustStore name)])"

subsection \<open>\<^verbatim>\<open>getKafkaConnection\<close> (lines 71-147)\<close>

record ('p, 'c) KafkaConnect =
  kafkaConfig :: Config
  brokers :: "string list"
  syncProducer :: 'p
  consumer :: 'c

text \<open>The loop of lines 89-95: the first address that fails validation ends it.\<close>

fun validateBrokers :: "string list \<Rightarrow> 'e Error + string list" where
  "validateBrokers [] = Inr []"
| "validateBrokers (broker # rest) =
     (case validateBrokerUrl broker of
        Some err \<Rightarrow> Inl (ErrBrokerFormat broker err)
      | None \<Rightarrow>
          (case validateBrokers rest of
             Inl e \<Rightarrow> Inl e
           | Inr bs \<Rightarrow> Inr (broker # bs)))"

text \<open>Lines 107-119: the trust store, when one is set.\<close>

definition tlsSetup ::
  "('p, 'c, 'e) Env \<Rightarrow> Settings \<Rightarrow> Config \<Rightarrow> ('e Error + Config) \<times> Event list" where
  "tlsSetup env settings cfg =
     (if TrustStore settings \<noteq> [] then
        (case getCerts env (TrustStore settings) of
           ((trustPool, None), log) \<Rightarrow>
             (Inr (cfg\<lparr>NetTLSEnable := True,
                        NetTLSConfig := Some \<lparr>RootCAs = Some trustPool, InsecureSkipVerify = True\<rparr>\<rparr>),
              log @ [Debugf (MsgTruststore (TrustStore settings))])
         | ((trustPool, Some err), log) \<Rightarrow> (Inl err, log))
      else (Inr cfg, []))"

text \<open>Lines 122-130: SASL, when a user is set.\<close>

definition saslSetup :: "Settings \<Rightarrow> Config \<Rightarrow> ('e Error + Config) \<times> Event list" where
  "saslSetup settings cfg =
     (if User settings \<noteq> [] then
        (if length (Password settings) = 0 then (Inl (ErrNoPassword (User settings)), [])
         else (Inr (cfg\<lparr>NetSASLEnable := True,
                         NetSASLUser := User settings,
                         NetSASLPassword := Password settings\<rparr>),
               [Debugf (MsgSASL (User settings))]))
      else (Inr cfg, []))"

text \<open>Lines 75-79: sarama's default configuration with the producer settings.\<close>

definition producerConfig :: "('p, 'c, 'e) Env \<Rightarrow> Config" where
  "producerConfig env =
     (NewConfig env)\<lparr>ProducerReturnErrors := True,
                      ProducerRequiredAcks := WaitForAll,
                      ProducerRetryMax := 5,
                      ProducerReturnSuccesses := True\<rparr>"

text \<open>
  Lines 73-130 from the split broker list on: the producer settings, the test for an empty
  list, the validation loop, the trust store, SASL. The result is the broker list and the
  client configuration that the two constructors will be given.
\<close>

definition buildConfigFrom ::
  "('p, 'c, 'e) Env \<Rightarrow> Settings \<Rightarrow> string list \<Rightarrow> ('e Error + string list \<times> Config) \<times> Event list" where
  "buildConfigFrom env settings brokerUrls =
     (let cfg0 = producerConfig env
      in if length brokerUrls < 1 then (Inl (ErrNoBroker (BrokerUrls settings)), [])
         else
           (case validateBrokers brokerUrls of
              Inl e \<Rightarrow> (Inl e, [])
            | Inr bs \<Rightarrow>
                (let log0 = [Debugf (MsgBrokers bs)]
                 in case tlsSetup env settings cfg0 of
                      (Inl e, log1) \<Rightarrow> (Inl e, log0 @ log1)
                    | (Inr cfg1, log1) \<Rightarrow>
                        (case saslSetup settings cfg1 of
                           (Inl e, log2) \<Rightarrow> (Inl e, log0 @ log1 @ log2)
                         | (Inr cfg2, log2) \<Rightarrow> (Inr (bs, cfg2), log0 @ log1 @ log2)))))"

definition buildConfig ::
  "('p, 'c, 'e) Env \<Rightarrow> Settings \<Rightarrow> ('e Error + string list \<times> Config) \<times> Event list" where
  "buildConfig env settings =
     buildConfigFrom env settings (Split (BrokerUrls settings) CHR '','')"

definition getKafkaConnection ::
  "('p, 'c, 'e) Env \<Rightarrow> Settings \<Rightarrow> ('e Error + ('p, 'c) KafkaConnect) \<times> Event list" where
  "getKafkaConnection env settings =
     (case buildConfig env settings of
        (Inl e, log) \<Rightarrow> (Inl e, log)
      | (Inr (bs, cfg), log) \<Rightarrow>
          (let log1 = log @ [SaramaNewSyncProducer bs cfg]
           in case NewSyncProducer env bs cfg of
                Inl err \<Rightarrow> (Inl (ErrSyncProducer err), log1)
              | Inr producer \<Rightarrow>
                  (let log2 = log1 @ [SaramaNewConsumer bs cfg]
                   in case NewConsumer env bs cfg of
                        Inl err \<Rightarrow> (Inl (ErrConsumer err), log2)
                      | Inr kafkaConsumer \<Rightarrow>
                          (Inr \<lparr>kafkaConfig = cfg, brokers = bs,
                                syncProducer = producer, consumer = kafkaConsumer\<rparr>,
                           log2))))"

subsection \<open>The connection handle (lines 35-54)\<close>

definition Producer :: "('p, 'c) KafkaConnect \<Rightarrow> 'p" where
  "Producer c = syncProducer c"

definition Consumer :: "('p, 'c) KafkaConnect \<Rightarrow> 'c" where
  "Consumer c = consumer c"

text \<open>
  \<^verbatim>\<open>Stop\<close>. Closing changes the world outside the program, so the two \<^verbatim>\<open>Close\<close> methods
  are state transformers on a world \<open>'w\<close> that return Go's error (\<open>None\<close> is \<^verbatim>\<open>nil\<close>).
\<close>

definition Stop ::
  "('p \<Rightarrow> 'w \<Rightarrow> 'e option \<times> 'w) \<Rightarrow> ('c \<Rightarrow> 'w \<Rightarrow> 'e option \<times> 'w) \<Rightarrow>
   ('p, 'c) KafkaConnect \<Rightarrow> 'w \<Rightarrow> 'e option \<times> 'w" where
  "Stop closeProducer closeConsumer c w =
     (case closeProducer (syncProducer c) w of
        (Some err, w1) \<Rightarrow> (Some err, w1)
      | (None, w1) \<Rightarrow>
          (case closeConsumer (consumer c) w1 of
             (Some err, w2) \<Rightarrow> (Some err, w2)
           | (None, w2) \<Rightarrow> (None, w2)))"

subsection \<open>A small environment for the examples\<close>

text \<open>
  A file system with a trust store \<^verbatim>\<open>/certs\<close> of three entries (a certificate, a file that
  holds no certificate, a file that cannot be read), a directory \<^verbatim>\<open>/dup\<close> with the same
  certificate in two files, a directory \<^verbatim>\<open>/garbage\<close> without any certificate, an empty
  directory \<^verbatim>\<open>/empty\<close> and a regular file \<^verbatim>\<open>/ca.pem\<close>; nothing else exists. Both
  constructors of sarama succeed.
\<close>

definition exampleCert :: Certificate where
  "exampleCert = \<lparr>Raw = ''der-of-ca'', RawSubject = ''CN=ca''\<rparr>"

definition exampleConfig :: Config where
  "exampleConfig =
     \<lparr>ProducerReturnErrors = True, ProducerReturnSuccesses = False,
      ProducerRequiredAcks = WaitForLocal, ProducerRetryMax = 3,
      NetTLSEnable = False, NetTLSConfig = None,
      NetSASLEnable = False, NetSASLUser = [], NetSASLPassword = []\<rparr>"

definition exampleStat :: "string \<Rightarrow> FileInfo option" where
  "exampleStat path =
     (if path = ''/certs'' \<or> path = ''/dup'' \<or> path = ''/garbage'' \<or> path = ''/empty''
      then Some \<lparr>IsDir = True, IsRegular = False\<rparr>
      else if path = ''/ca.pem'' then Some \<lparr>IsDir = False, IsRegular = True\<rparr>
      else None)"

definition exampleReadDir :: "string \<Rightarrow> string list option" where
  "exampleReadDir path =
     (if path = ''/certs'' then Some [''ca.pem'', ''junk.txt'', ''locked.pem'']
      else if path = ''/dup'' then Some [''a.pem'', ''b.pem'']
      else if path = ''/garbage'' then Some [''junk.txt'']
      else if path = ''/empty'' then Some []
      else None)"

definition exampleReadFile :: "string \<Rightarrow> FileRead" where
  "exampleReadFile path =
     (if path = ''/certs/ca.pem'' \<or> path = ''/dup/a.pem'' \<or> path = ''/dup/b.pem''
           \<or> path = ''/ca.pem''
      then ReadBytes (Some ''pem-of-ca'')
      else if path = ''/certs/junk.txt'' \<or> path = ''/garbage/junk.txt''
      then ReadBytes (Some ''junk'')
      else ReadError)"

definition exampleDecodePEM :: "string \<Rightarrow> Certificate list" where
  "exampleDecodePEM bs = (if bs = ''pem-of-ca'' then [exampleCert] else [])"

definition exampleEnv :: "(unit, unit, string) Env" where
  "exampleEnv =
     \<lparr>Stat = exampleStat, ReadDir = exampleReadDir, ReadFile = exampleReadFile,
      PathSeparator = CHR ''/'', DecodePEM = exampleDecodePEM, NewConfig = exampleConfig,
      NewSyncProducer = (\<lambda>bs cfg. Inr ()), NewConsumer = (\<lambda>bs cfg. Inr ())\<rparr>"

text \<open>
  A stand-in for the X.509 verification of a chain against a pool: the chain must end in a
  certificate of the pool. It is used only to exhibit a chain that verification rejects.
\<close>

definition exampleX509Verify :: "CertPool option \<Rightarrow> Certificate list \<Rightarrow> bool" where
  "exampleX509Verify roots chain =
     (case roots of
        None \<Rightarrow> False
      | Some pool \<Rightarrow> chain \<noteq> [] \<and> poolContains pool (last chain))"

definition exampleIntruder :: Certificate where
  "exampleIntruder = \<lparr>Raw = ''der-of-intruder'', RawSubject = ''CN=intruder''\<rparr>"

section \<open>Broker addresses\<close>

subsection \<open>\<^verbatim>\<open>strings.Split\<close>\<close>

lemma Split_not_Nil: "Split s sep \<noteq> []"
  by (induction s) (auto split: list.splits)

lemma Split_no_sep: "sep \<notin> set s \<Longrightarrow> Split s sep = [s]"
  by (induction s) auto

lemma Split_append_sep: "sep \<notin> set h \<Longrightarrow> Split (h @ sep # r) sep = h # Split r sep"
  by (induction h) auto

lemma length_Split: "length (Split s sep) = Suc (count_list s sep)"
  by (induction s) (auto split: list.splits simp: Split_not_Nil)

lemma Split_two_iff:
  "length (Split s sep) = 2 \<longleftrightarrow> (\<exists>h p. s = h @ sep # p \<and> sep \<notin> set h \<and> sep \<notin> set p)"
proof
  assume two: "length (Split s sep) = 2"
  let ?h = "takeWhile (\<lambda>c. c \<noteq> sep) s"
  let ?r = "dropWhile (\<lambda>c. c \<noteq> sep) s"
  have hfree: "sep \<notin> set ?h"
    by (auto dest: set_takeWhileD)
  show "\<exists>h p. s = h @ sep # p \<and> sep \<notin> set h \<and> sep \<notin> set p"
  proof (cases ?r)
    case Nil
    then have "\<forall>x\<in>set s. x \<noteq> sep" by (simp add: dropWhile_eq_Nil_conv)
    then have "sep \<notin> set s" by blast
    then show ?thesis using two by (simp add: Split_no_sep)
  next
    case (Cons c p)
    then have "s = ?h @ c # p \<and> \<not> c \<noteq> sep"
      using dropWhile_eq_Cons_conv[of "\<lambda>c. c \<noteq> sep" s c p] by blast
    then have c: "c = sep" and sc: "s = ?h @ c # p" by blast+
    have s2: "s = ?h @ sep # p" using sc unfolding c .
    have "Split (?h @ sep # p) sep = ?h # Split p sep"
      by (rule Split_append_sep[OF hfree])
    then have "Split s sep = ?h # Split p sep"
      using s2 by metis
    then have "length (Split p sep) = 1" using two by simp
    then have "sep \<notin> set p" by (simp add: length_Split count_list_0_iff)
    then show ?thesis using s2 hfree by blast
  qed
next
  assume "\<exists>h p. s = h @ sep # p \<and> sep \<notin> set h \<and> sep \<notin> set p"
  then show "length (Split s sep) = 2"
    by (auto simp: Split_append_sep Split_no_sep)
qed

subsection \<open>\<^verbatim>\<open>strconv.Atoi\<close> on port specifications\<close>

lemma decFrom_ge: "n \<le> decFrom n ds"
proof (induction ds arbitrary: n)
  case Nil
  show ?case by simp
next
  case (Cons c cs)
  have "n \<le> n * 10 + digitVal c" by simp
  also have "\<dots> \<le> decFrom (n * 10 + digitVal c) cs" by (rule Cons.IH)
  finally show ?case by simp
qed

lemma decFrom_Cons_ge: "n * 10 + digitVal c \<le> decFrom n (c # cs)"
  by (simp add: decFrom_ge)

lemma parseUintLoop_digits:
  "list_all isDigit ds \<Longrightarrow> n \<le> maxUint64 \<Longrightarrow>
   parseUintLoop n ds =
     (if decFrom n ds \<le> maxUint64 then Inr (decFrom n ds) else Inl ErrRange)"
proof (induction ds arbitrary: n)
  case Nil
  then show ?case by simp
next
  case (Cons c cs)
  have dig: "isDigit c" and rest: "list_all isDigit cs" using Cons.prems by simp_all
  have lower: "n * 10 + digitVal c \<le> decFrom n (c # cs)" by (rule decFrom_Cons_ge)
  show ?case
  proof (cases "cutoff64 \<le> n")
    case True
    then have "maxUint64 < n * 10" by (simp add: cutoff64_def maxUint64_def)
    with lower have "\<not> decFrom n (c # cs) \<le> maxUint64" by linarith
    with True dig show ?thesis by simp
  next
    case small: False
    show ?thesis
    proof (cases "maxUint64 < n * 10 + digitVal c")
      case True
      with lower have "\<not> decFrom n (c # cs) \<le> maxUint64" by linarith
      with True small dig show ?thesis by simp
    next
      case False
      then have "n * 10 + digitVal c \<le> maxUint64" by simp
      from Cons.IH[OF rest this] False small dig show ?thesis
        by (simp add: Let_def)
    qed
  qed
qed

lemma parseUintLoop_Inr_digits: "parseUintLoop n ds = Inr m \<Longrightarrow> list_all isDigit ds"
  by (induction ds arbitrary: n) (auto simp: Let_def split: if_splits)

lemma ParseUint_Inr_iff:
  "ParseUint s = Inr m \<longleftrightarrow> digits1 s \<and> decFrom 0 s = m \<and> m \<le> maxUint64"
proof (cases "digits1 s")
  case True
  then show ?thesis
    by (auto simp: ParseUint_def digits1_def parseUintLoop_digits maxUint64_def)
next
  case False
  then show ?thesis
    by (auto simp: ParseUint_def digits1_def dest: parseUintLoop_Inr_digits)
qed

lemma ParseUint_cases:
  obtains (ok) m where "ParseUint s = Inr m" "digits1 s" "decFrom 0 s = m" "m \<le> maxUint64"
  | (bad) e where "ParseUint s = Inl e" "\<not> (digits1 s \<and> decFrom 0 s \<le> maxUint64)"
proof (cases "ParseUint s")
  case (Inl e)
  then have "\<not> (digits1 s \<and> decFrom 0 s \<le> maxUint64)"
    using ParseUint_Inr_iff[of s "decFrom 0 s"] by auto
  with Inl show ?thesis by (rule bad)
next
  case (Inr m)
  then show ?thesis using ParseUint_Inr_iff[of s m] ok by blast
qed

lemma ParseInt_unsigned:
  assumes "c \<noteq> CHR ''+''" "c \<noteq> CHR ''-''"
  shows "inPortRange (ParseInt (c # ds)) \<longleftrightarrow> digits1 (c # ds) \<and> decFrom 0 (c # ds) \<le> 32767"
proof (cases "c # ds" rule: ParseUint_cases)
  case (ok m)
  then show ?thesis using assms
    by (auto simp: ParseInt_def inPortRange_def Let_def)
next
  case (bad e)
  then show ?thesis using assms
    by (cases e) (auto simp: ParseInt_def inPortRange_def Let_def maxUint64_def)
qed

lemma ParseInt_plus:
  "inPortRange (ParseInt (CHR ''+'' # ds)) \<longleftrightarrow> digits1 ds \<and> decFrom 0 ds \<le> 32767"
proof (cases ds rule: ParseUint_cases)
  case (ok m)
  then show ?thesis
    by (auto simp: ParseInt_def inPortRange_def Let_def)
next
  case (bad e)
  then show ?thesis
    by (cases e) (auto simp: ParseInt_def inPortRange_def Let_def maxUint64_def)
qed

lemma ParseInt_minus:
  "inPortRange (ParseInt (CHR ''-'' # ds)) \<longleftrightarrow> digits1 ds \<and> decFrom 0 ds = 0"
proof (cases ds rule: ParseUint_cases)
  case (ok m)
  then show ?thesis
    by (auto simp: ParseInt_def inPortRange_def Let_def)
next
  case (bad e)
  then show ?thesis
    by (cases e) (auto simp: ParseInt_def inPortRange_def Let_def maxUint64_def)
qed

lemma ParseInt_portAccepted: "inPortRange (ParseInt s) \<longleftrightarrow> portAccepted s"
proof (cases s)
  case Nil
  then show ?thesis by (simp add: ParseInt_def inPortRange_def portAccepted_def)
next
  case (Cons c ds)
  consider "c = CHR ''+''" | "c = CHR ''-''" | "c \<noteq> CHR ''+''" "c \<noteq> CHR ''-''" by blast
  then show ?thesis
  proof cases
    case 1
    then show ?thesis using Cons ParseInt_plus[of ds] by (simp add: portAccepted_def)
  next
    case 2
    then show ?thesis using Cons ParseInt_minus[of ds] by (simp add: portAccepted_def)
  next
    case 3
    then show ?thesis using Cons ParseInt_unsigned[of c ds] by (simp add: portAccepted_def)
  qed
qed

lemma atoiLoop_eq:
  "atoiLoop (int n) ds = (if list_all isDigit ds then Some (int (decFrom n ds)) else None)"
proof (induction ds arbitrary: n)
  case Nil
  show ?case by simp
next
  case (Cons c cs)
  have "int n * 10 + int (digitVal c) = int (n * 10 + digitVal c)" by simp
  then show ?case using Cons.IH[of "n * 10 + digitVal c"] by simp
qed

lemma atoiLoop0_eq:
  "atoiLoop 0 ds = (if list_all isDigit ds then Some (int (decFrom 0 ds)) else None)"
  using atoiLoop_eq[of 0 ds] by simp

lemma Atoi_fast_signed:
  assumes "c = CHR ''+'' \<or> c = CHR ''-''" "length (c # ds) < 19"
  shows "Atoi (c # ds) =
           (if digits1 ds then Inr (if c = CHR ''-'' then - int (decFrom 0 ds) else int (decFrom 0 ds))
            else Inl ErrSyntax)"
proof (cases "ds = []")
  case True
  then show ?thesis using assms by (auto simp: Atoi_def digits1_def)
next
  case False
  then have "\<not> length ds < 1" by (cases ds) simp_all
  then show ?thesis using assms False
    by (auto simp: Atoi_def digits1_def atoiLoop0_eq simp del: atoiLoop.simps decFrom.simps)
qed

lemma Atoi_fast_unsigned:
  assumes "c \<noteq> CHR ''+''" "c \<noteq> CHR ''-''" "length (c # ds) < 19"
  shows "Atoi (c # ds) =
           (if digits1 (c # ds) then Inr (int (decFrom 0 (c # ds))) else Inl ErrSyntax)"
  using assms
  by (simp add: Atoi_def digits1_def atoiLoop0_eq del: atoiLoop.simps decFrom.simps)

lemma Atoi_fast_portAccepted:
  assumes "0 < length s" "length s < 19"
  shows "inPortRange (Atoi s) \<longleftrightarrow> portAccepted s"
proof (cases s)
  case Nil
  then show ?thesis using assms by simp
next
  case (Cons c ds)
  have len: "length (c # ds) < 19" using assms Cons by simp
  show ?thesis
  proof (cases "c = CHR ''+'' \<or> c = CHR ''-''")
    case True
    then show ?thesis unfolding Cons Atoi_fast_signed[OF True len]
      by (auto simp: inPortRange_def portAccepted_def)
  next
    case False
    then have ns: "c \<noteq> CHR ''+''" "c \<noteq> CHR ''-''" by simp_all
    show ?thesis unfolding Cons Atoi_fast_unsigned[OF ns len]
      using ns by (simp add: inPortRange_def portAccepted_def del: decFrom.simps)
  qed
qed

lemma Atoi_portAccepted: "inPortRange (Atoi s) \<longleftrightarrow> portAccepted s"
proof (cases "0 < length s \<and> length s < 19")
  case True
  then show ?thesis using Atoi_fast_portAccepted by blast
next
  case False
  have "Atoi s = ParseInt s" unfolding Atoi_def by (rule if_not_P) (rule False)
  then show ?thesis by (simp add: ParseInt_portAccepted)
qed

subsection \<open>\<^verbatim>\<open>validateBrokerUrl\<close>\<close>

lemma validateBrokerUrl_None_iff:
  "validateBrokerUrl b = None \<longleftrightarrow>
     (\<exists>h p. b = h @ CHR '':'' # p \<and> CHR '':'' \<notin> set h \<and> CHR '':'' \<notin> set p \<and> portAccepted p)"
proof
  assume ok: "validateBrokerUrl b = None"
  then have two: "length (Split b CHR '':'') = 2"
    by (auto simp: validateBrokerUrl_def Let_def split: if_splits)
  then obtain h p where b: "b = h @ CHR '':'' # p" and h: "CHR '':'' \<notin> set h" and p: "CHR '':'' \<notin> set p"
    using Split_two_iff by blast
  then have sp: "Split b CHR '':'' = [h, p]" by (simp add: Split_append_sep Split_no_sep)
  have "inPortRange (Atoi p)" using ok sp
    by (auto simp: validateBrokerUrl_def Let_def inPortRange_def split: if_splits sum.splits)
  then have "portAccepted p" by (simp add: Atoi_portAccepted)
  with b h p show "\<exists>h p. b = h @ CHR '':'' # p \<and> CHR '':'' \<notin> set h \<and> CHR '':'' \<notin> set p \<and> portAccepted p"
    by blast
next
  assume "\<exists>h p. b = h @ CHR '':'' # p \<and> CHR '':'' \<notin> set h \<and> CHR '':'' \<notin> set p \<and> portAccepted p"
  then obtain h p where b: "b = h @ CHR '':'' # p" and h: "CHR '':'' \<notin> set h" and p: "CHR '':'' \<notin> set p"
    and acc: "portAccepted p" by blast
  then have sp: "Split b CHR '':'' = [h, p]" by (simp add: Split_append_sep Split_no_sep)
  have "inPortRange (Atoi p)" using acc by (simp add: Atoi_portAccepted)
  then show "validateBrokerUrl b = None" using sp
    by (auto simp: validateBrokerUrl_def Let_def inPortRange_def split: sum.splits)
qed

lemma colon_not_digit: "\<not> isDigit CHR '':''"
  by (simp add: isDigit_def)

lemma digits_no_colon: "list_all isDigit p \<Longrightarrow> CHR '':'' \<notin> set p"
  using colon_not_digit by (auto simp: list_all_iff)

lemma digits_portAccepted:
  assumes "p \<noteq> []" "list_all isDigit p" "decFrom 0 p \<le> 32767"
  shows "portAccepted p"
proof (cases p)
  case Nil
  with assms show ?thesis by simp
next
  case (Cons c ds)
  then have "isDigit c" using assms by simp
  then have "c \<noteq> CHR ''+''" "c \<noteq> CHR ''-''" by (auto simp: isDigit_def)
  then show ?thesis using assms Cons by (simp add: portAccepted_def digits1_def)
qed

lemma specAddress_accepted: "specAddress b \<Longrightarrow> validateBrokerUrl b = None"
proof -
  assume spec: "specAddress b"
  let ?h = "takeWhile (\<lambda>c. c \<noteq> CHR '':'') b"
  let ?r = "dropWhile (\<lambda>c. c \<noteq> CHR '':'') b"
  have hfree: "CHR '':'' \<notin> set ?h" by (auto dest: set_takeWhileD)
  from spec obtain c p where r: "?r = c # p" and p1: "1 \<le> length p"
    and dig: "list_all isDigit p" and val: "decFrom 0 p \<le> 32767"
    by (auto simp: specAddress_def Let_def split: list.splits)
  from r have "b = ?h @ c # p \<and> \<not> c \<noteq> CHR '':''"
    using dropWhile_eq_Cons_conv[of "\<lambda>c. c \<noteq> CHR '':''" b c p] by blast
  then have c: "c = CHR '':''" and bc: "b = ?h @ c # p" by blast+
  have b2: "b = ?h @ CHR '':'' # p" using bc unfolding c .
  have pne: "p \<noteq> []" using p1 by auto
  have "portAccepted p" using pne dig val by (rule digits_portAccepted)
  moreover have "CHR '':'' \<notin> set p" using dig by (rule digits_no_colon)
  ultimately show ?thesis using b2 hfree validateBrokerUrl_None_iff[of b] by blast
qed

text \<open>
  Claim C1, as amended. Validation succeeds exactly for the strings with one colon whose
  part after the colon is an optional sign \<^verbatim>\<open>+\<close> or \<^verbatim>\<open>-\<close> followed by one or more decimal
  digits (any number of them) with a value in \<open>[0, 32767]\<close>; the part before the colon may
  be empty. Every address of the shape \<^verbatim>\<open>^[^:]+:[0-9]{1,5}$\<close> with its number in
  \<open>[0, 32767]\<close> is among them.
\<close>

theorem validateBrokerUrl_succeeds_iff:
  "(validateBrokerUrl b = None \<longleftrightarrow>
      (\<exists>h p. b = h @ CHR '':'' # p \<and> CHR '':'' \<notin> set h \<and> CHR '':'' \<notin> set p \<and> portAccepted p))
   \<and> (specAddress b \<longrightarrow> validateBrokerUrl b = None)"
  using validateBrokerUrl_None_iff[of b] specAddress_accepted[of b] by blast

text \<open>
  The theorem at \<^verbatim>\<open>kafka:9092\<close>, an address of the specification's shape: validation
  succeeds and the decomposition exists.
\<close>

theorem validateBrokerUrl_succeeds_iff_witness:
  "specAddress ''kafka:9092'' \<and> validateBrokerUrl ''kafka:9092'' = None \<and>
   (\<exists>h p. ''kafka:9092'' = h @ CHR '':'' # p \<and> CHR '':'' \<notin> set h \<and> CHR '':'' \<notin> set p
          \<and> portAccepted p)"
proof -
  have spec: "specAddress ''kafka:9092''"
    by (simp add: specAddress_def isDigit_def digitVal_def)
  note inst = validateBrokerUrl_succeeds_iff[of "''kafka:9092''"]
  have ok: "validateBrokerUrl ''kafka:9092'' = None"
    by (rule mp[OF inst[THEN conjunct2] spec])
  have ex: "\<exists>h p. ''kafka:9092'' = h @ CHR '':'' # p \<and> CHR '':'' \<notin> set h \<and> CHR '':'' \<notin> set p
              \<and> portAccepted p"
    by (rule iffD1[OF inst[THEN conjunct1] ok])
  from spec ok ex show ?thesis by (intro conjI)
qed

text \<open>
  Claim C1 as stated fails in the direction "every other string is rejected": an empty
  host, a signed port and a port of more than five digits are accepted, and none of them
  has the specification's shape.
\<close>

theorem validateBrokerUrl_spec_shape_counterexample:
  "validateBrokerUrl '':9092'' = None \<and> \<not> specAddress '':9092'' \<and>
   validateBrokerUrl ''kafka:+9092'' = None \<and> \<not> specAddress ''kafka:+9092'' \<and>
   validateBrokerUrl ''kafka:0009092'' = None \<and> \<not> specAddress ''kafka:0009092''"
  by (simp add: validateBrokerUrl_def Atoi_def specAddress_def isDigit_def digitVal_def)

section \<open>The connection key\<close>

lemma getConnectionKey_concat:
  "getConnectionKey s = BrokerUrls s @ TrustStore s @ User s"
  by (simp add: getConnectionKey_def Let_def)

text \<open>
  Claim C7. The key is a function of the settings alone: it is the broker list, then the
  trust-store path if not empty, then the user name if not empty, with no separator (which
  is the plain concatenation of the three fields), and settings that agree on these three
  fields, identical settings among them, have the same key.
\<close>

theorem getConnectionKey_is_concatenation:
  "getConnectionKey s = specConnectionKey s \<and>
   getConnectionKey s = BrokerUrls s @ TrustStore s @ User s \<and>
   (\<forall>t. BrokerUrls t = BrokerUrls s \<and> TrustStore t = TrustStore s \<and> User t = User s
        \<longrightarrow> getConnectionKey t = getConnectionKey s)"
  by (simp add: getConnectionKey_concat specConnectionKey_def)

text \<open>
  The theorem at the specification's example, two brokers and neither trust store nor
  user: the key is the broker list, also when only the password differs.
\<close>

theorem getConnectionKey_is_concatenation_witness:
  "getConnectionKey \<lparr>BrokerUrls = ''10.0.0.1:9092,10.0.0.2:9092'', User = [], Password = [],
                     TrustStore = []\<rparr> = ''10.0.0.1:9092,10.0.0.2:9092'' \<and>
   getConnectionKey \<lparr>BrokerUrls = ''10.0.0.1:9092,10.0.0.2:9092'', User = [],
                     Password = ''secret'', TrustStore = []\<rparr> =
   getConnectionKey \<lparr>BrokerUrls = ''10.0.0.1:9092,10.0.0.2:9092'', User = [], Password = [],
                     TrustStore = []\<rparr>"
proof -
  let ?s = "\<lparr>BrokerUrls = ''10.0.0.1:9092,10.0.0.2:9092'', User = [], Password = [],
             TrustStore = []\<rparr>"
  let ?t = "\<lparr>BrokerUrls = ''10.0.0.1:9092,10.0.0.2:9092'', User = [], Password = ''secret'',
             TrustStore = []\<rparr>"
  note inst = getConnectionKey_is_concatenation[of ?s]
  have key: "getConnectionKey ?s = ''10.0.0.1:9092,10.0.0.2:9092''"
    using inst[THEN conjunct2, THEN conjunct1] by simp
  have same: "BrokerUrls ?t = BrokerUrls ?s \<and> TrustStore ?t = TrustStore ?s \<and> User ?t = User ?s"
    by simp
  have "getConnectionKey ?t = getConnectionKey ?s"
    using inst[THEN conjunct2, THEN conjunct2, THEN spec, of ?t] same by (rule mp)
  with key show ?thesis by (intro conjI)
qed

text \<open>
  Claim C8. The key is not injective: the broker list \<^verbatim>\<open>AB\<close> with the trust store \<^verbatim>\<open>C\<close> and
  the broker list \<^verbatim>\<open>A\<close> with the trust store \<^verbatim>\<open>BC\<close> are different settings with the same
  key.
\<close>

theorem getConnectionKey_collision:
  "\<lparr>BrokerUrls = ''AB'', User = [], Password = [], TrustStore = ''C''\<rparr> \<noteq>
   \<lparr>BrokerUrls = ''A'', User = [], Password = [], TrustStore = ''BC''\<rparr> \<and>
   getConnectionKey \<lparr>BrokerUrls = ''AB'', User = [], Password = [], TrustStore = ''C''\<rparr> =
   getConnectionKey \<lparr>BrokerUrls = ''A'', User = [], Password = [], TrustStore = ''BC''\<rparr> \<and>
   (\<exists>s t. s \<noteq> t \<and> getConnectionKey s = getConnectionKey t)"
proof -
  let ?s = "\<lparr>BrokerUrls = ''AB'', User = [], Password = [], TrustStore = ''C''\<rparr>"
  let ?t = "\<lparr>BrokerUrls = ''A'', User = [], Password = [], TrustStore = ''BC''\<rparr>"
  have ne: "?s \<noteq> ?t" by simp
  have eq: "getConnectionKey ?s = getConnectionKey ?t" by (simp add: getConnectionKey_def Let_def)
  have ex: "\<exists>s t. s \<noteq> t \<and> getConnectionKey s = getConnectionKey t"
    by (rule exI[of _ ?s], rule exI[of _ ?t]) (rule conjI[OF ne eq])
  from ne eq ex show ?thesis by (intro conjI)
qed

section \<open>Stopping a connection\<close>

text \<open>
  Claim C9. \<^verbatim>\<open>Stop\<close> closes the producer first. When that fails, \<^verbatim>\<open>Stop\<close> returns the
  producer's error and leaves the world as the producer's \<^verbatim>\<open>Close\<close> left it, whatever the
  consumer's \<^verbatim>\<open>Close\<close> would do: the consumer is not closed. When it succeeds, \<^verbatim>\<open>Stop\<close>
  closes the consumer in the world the producer's \<^verbatim>\<open>Close\<close> left and returns what the
  consumer's \<^verbatim>\<open>Close\<close> returns.
\<close>

theorem Stop_producer_then_consumer:
  "(closeProducer (syncProducer c) w = (Some err, w1) \<longrightarrow>
      Stop closeProducer closeConsumer c w = (Some err, w1)) \<and>
   (closeProducer (syncProducer c) w = (None, w1) \<longrightarrow>
      Stop closeProducer closeConsumer c w = closeConsumer (consumer c) w1)"
  by (auto simp: Stop_def split: prod.splits option.splits)

text \<open>
  The theorem on a world that is the list of the \<^verbatim>\<open>Close\<close> calls made so far: a producer
  whose \<^verbatim>\<open>Close\<close> fails ends \<^verbatim>\<open>Stop\<close> with the consumer untouched, and after a producer
  whose \<^verbatim>\<open>Close\<close> succeeds the consumer's failure is what \<^verbatim>\<open>Stop\<close> returns.
\<close>

theorem Stop_producer_then_consumer_witness:
  "Stop (\<lambda>p w. (Some ''producer failed'', w @ [''producer.Close'']))
        (\<lambda>c w. (None, w @ [''consumer.Close'']))
        \<lparr>kafkaConfig = exampleConfig, brokers = [''kafka:9092''], syncProducer = (), consumer = ()\<rparr> []
     = (Some ''producer failed'', [''producer.Close'']) \<and>
   Stop (\<lambda>p w. (None, w @ [''producer.Close'']))
        (\<lambda>c w. (Some ''consumer failed'', w @ [''consumer.Close'']))
        \<lparr>kafkaConfig = exampleConfig, brokers = [''kafka:9092''], syncProducer = (), consumer = ()\<rparr> []
     = (Some ''consumer failed'', [''producer.Close'', ''consumer.Close''])"
proof -
  let ?c = "\<lparr>kafkaConfig = exampleConfig, brokers = [''kafka:9092''], syncProducer = (), consumer = ()\<rparr>"
  let ?failP = "\<lambda>(p::unit) (w::string list). (Some ''producer failed'', w @ [''producer.Close''])"
  let ?okP = "\<lambda>(p::unit) (w::string list). (None::string option, w @ [''producer.Close''])"
  let ?okC = "\<lambda>(c::unit) (w::string list). (None::string option, w @ [''consumer.Close''])"
  let ?failC = "\<lambda>(c::unit) (w::string list). (Some ''consumer failed'', w @ [''consumer.Close''])"
  have a: "Stop ?failP ?okC ?c [] = (Some ''producer failed'', [''producer.Close''])"
    using Stop_producer_then_consumer[of ?failP ?c "[]" "''producer failed''"
        "[''producer.Close'']" ?okC]
    by simp
  have b: "Stop ?okP ?failC ?c [] = (Some ''consumer failed'', [''producer.Close'', ''consumer.Close''])"
    using Stop_producer_then_consumer[of ?okP ?c "[]" "''unused''" "[''producer.Close'']" ?failC]
    by simp
  from a b show ?thesis by (intro conjI)
qed

section \<open>Loading the trust store\<close>

subsection \<open>The loop over the directory entries\<close>

lemma certFileStep_pool:
  "fst (certFileStep env ts st name) = foldl AddCert (fst st) (fileCerts env ts name)"
  by (simp add: certFileStep_def fileCerts_def AppendCertsFromPEM_def Let_def
           split: FileRead.splits option.splits)

lemma certFileStep_log:
  "snd (certFileStep env ts st name) = snd st @ certFileEvents env ts name"
  by (simp add: certFileStep_def certFileEvents_def unreadableFile_def Let_def
           split: FileRead.splits option.splits)

lemma loadCertFiles_pool:
  "fst (loadCertFiles env ts names st) =
     foldl AddCert (fst st) (concat (map (fileCerts env ts) names))"
  unfolding loadCertFiles_def
  by (induction names arbitrary: st) (simp_all add: certFileStep_pool)

lemma loadCertFiles_log:
  "snd (loadCertFiles env ts names st) = snd st @ concat (map (certFileEvents env ts) names)"
  unfolding loadCertFiles_def
  by (induction names arbitrary: st) (simp_all add: certFileStep_log)

lemma warnings_certFileEvents:
  "length (warnings (certFileEvents env ts name)) = (if unreadableFile env ts name then 1 else 0)"
  by (simp add: warnings_def certFileEvents_def)

lemma warnings_append: "warnings (xs @ ys) = warnings xs @ warnings ys"
  by (simp add: warnings_def)

lemma warnings_Nil: "warnings [] = []"
  by (simp add: warnings_def)

lemma warnings_all_files:
  "length (warnings (concat (map (certFileEvents env ts) names))) =
     length (filter (unreadableFile env ts) names)"
  by (induction names) (simp_all add: warnings_append warnings_certFileEvents warnings_Nil)

subsection \<open>The pool\<close>

lemma length_AddCert: "length pool \<le> length (AddCert pool c)"
  by (simp add: AddCert_def)

lemma length_foldl_AddCert: "length pool \<le> length (foldl AddCert pool cs)"
proof (induction cs arbitrary: pool)
  case Nil
  show ?case by simp
next
  case (Cons c cs)
  have "length pool \<le> length (AddCert pool c)" by (rule length_AddCert)
  also have "\<dots> \<le> length (foldl AddCert (AddCert pool c) cs)" by (rule Cons.IH)
  finally show ?case by simp
qed

lemma AddCert_not_Nil: "AddCert pool c \<noteq> []"
  by (cases pool) (simp_all add: AddCert_def poolContains_def)

lemma foldl_AddCert_not_Nil:
  assumes "cs \<noteq> []"
  shows "foldl AddCert pool cs \<noteq> []"
proof (cases cs)
  case Nil
  with assms show ?thesis by simp
next
  case (Cons c rest)
  have "0 < length (AddCert pool c)" using AddCert_not_Nil[of pool c] by simp
  also have "\<dots> \<le> length (foldl AddCert (AddCert pool c) rest)" by (rule length_foldl_AddCert)
  finally show ?thesis using Cons by auto
qed

lemma foldl_AddCert_Nil_iff: "foldl AddCert [] cs = [] \<longleftrightarrow> cs = []"
  using foldl_AddCert_not_Nil[of cs "[]"] by auto

lemma foldl_AddCert_distinct:
  "distinct (map Raw (pool @ cs)) \<Longrightarrow> foldl AddCert pool cs = pool @ cs"
proof (induction cs arbitrary: pool)
  case Nil
  show ?case by simp
next
  case (Cons c cs)
  have nin: "Raw c \<notin> Raw ` set pool" using Cons.prems by simp
  have fresh: "\<not> poolContains pool c"
  proof
    assume "poolContains pool c"
    then obtain d where d: "d \<in> set pool" "Raw d = Raw c"
      by (auto simp: poolContains_def list_ex_iff)
    have "Raw d \<in> Raw ` set pool" using d(1) by (rule imageI)
    with d(2) nin show False by simp
  qed
  have "distinct (map Raw ((pool @ [c]) @ cs))" using Cons.prems by simp
  then have "foldl AddCert (pool @ [c]) cs = (pool @ [c]) @ cs" by (rule Cons.IH)
  moreover have "AddCert pool c = pool @ [c]" using fresh by (simp add: AddCert_def)
  ultimately show ?case by simp
qed

lemma length_concat_at_most_one:
  "\<forall>n\<in>set names. length (f n) \<le> 1 \<Longrightarrow>
   length (concat (map f names)) = length (filter (\<lambda>n. f n \<noteq> []) names)"
proof (induction names)
  case Nil
  show ?case by simp
next
  case (Cons n names)
  have "length (f n) \<le> 1" using Cons.prems by simp
  then have "length (f n) = (if f n \<noteq> [] then 1 else 0)" by (cases "f n") auto
  then show ?case using Cons by simp
qed

lemma concat_not_Nil: "\<exists>n\<in>set names. f n \<noteq> [] \<Longrightarrow> concat (map f names) \<noteq> []"
  by (induction names) auto

subsection \<open>\<^verbatim>\<open>getCerts\<close>\<close>

lemma getCerts_directory:
  assumes "Stat env ts = Some fi" "IsDir fi \<or> \<not> IsRegular fi"
    and "ReadDir env ts = Some names" "names \<noteq> []"
  shows "getCerts env ts =
           ((foldl AddCert NewCertPool (concat (map (fileCerts env ts) names)),
             if Subjects (foldl AddCert NewCertPool (concat (map (fileCerts env ts) names))) = []
             then Some (ErrTruststoreNoCerts ts) else None),
            [OsStat ts, IoReadDir ts] @ concat (map (certFileEvents env ts) names))"
proof -
  let ?st = "loadCertFiles env ts names (NewCertPool, [OsStat ts, IoReadDir ts])"
  have pool: "fst ?st = foldl AddCert NewCertPool (concat (map (fileCerts env ts) names))"
    by (simp add: loadCertFiles_pool)
  have log: "snd ?st = [OsStat ts, IoReadDir ts] @ concat (map (certFileEvents env ts) names)"
    by (simp add: loadCertFiles_log)
  have "getCerts env ts =
          (if length (Subjects (fst ?st)) < 1
           then ((fst ?st, Some (ErrTruststoreNoCerts ts)), snd ?st)
           else ((fst ?st, None), snd ?st))"
    using assms by (auto simp: getCerts_def Let_def)
  then show ?thesis unfolding pool log by (simp add: Subjects_def)
qed

text \<open>
  Claim C4. Loading fails with the not-found error when \<^verbatim>\<open>os.Stat\<close> fails, as it does for a
  path that does not exist, and with the not-a-directory error when the path is a regular
  file, in both cases after the \<^verbatim>\<open>Stat\<close> alone (nothing is read); with the
  empty-or-unreadable error when the directory cannot be listed or has no entry; and
  otherwise, after every entry has been read, with the no-valid-certificates error when the
  pool has no subject, and with the pool of the certificates of all entries when it has
  one.
\<close>

theorem getCerts_outcomes:
  "(Stat env ts = None \<longrightarrow>
      getCerts env ts = ((NewCertPool, Some (ErrTruststoreNotExist ts)), [OsStat ts])) \<and>
   (Stat env ts = Some fi \<and> \<not> IsDir fi \<and> IsRegular fi \<longrightarrow>
      getCerts env ts = ((NewCertPool, Some (ErrTruststoreNotDir ts)), [OsStat ts])) \<and>
   (Stat env ts = Some fi \<and> (IsDir fi \<or> \<not> IsRegular fi) \<and>
    (ReadDir env ts = None \<or> ReadDir env ts = Some []) \<longrightarrow>
      getCerts env ts =
        ((NewCertPool, Some (ErrTruststoreUnreadable ts)), [OsStat ts, IoReadDir ts])) \<and>
   (Stat env ts = Some fi \<and> (IsDir fi \<or> \<not> IsRegular fi) \<and>
    ReadDir env ts = Some names \<and> names \<noteq> [] \<longrightarrow>
      getCerts env ts =
        ((foldl AddCert NewCertPool (concat (map (fileCerts env ts) names)),
          if Subjects (foldl AddCert NewCertPool (concat (map (fileCerts env ts) names))) = []
          then Some (ErrTruststoreNoCerts ts) else None),
         [OsStat ts, IoReadDir ts] @ concat (map (certFileEvents env ts) names)))"
proof (intro conjI impI)
  assume "Stat env ts = None"
  then show "getCerts env ts = ((NewCertPool, Some (ErrTruststoreNotExist ts)), [OsStat ts])"
    by (simp add: getCerts_def)
next
  assume "Stat env ts = Some fi \<and> \<not> IsDir fi \<and> IsRegular fi"
  then show "getCerts env ts = ((NewCertPool, Some (ErrTruststoreNotDir ts)), [OsStat ts])"
    by (simp add: getCerts_def)
next
  assume "Stat env ts = Some fi \<and> (IsDir fi \<or> \<not> IsRegular fi) \<and>
          (ReadDir env ts = None \<or> ReadDir env ts = Some [])"
  then show "getCerts env ts =
               ((NewCertPool, Some (ErrTruststoreUnreadable ts)), [OsStat ts, IoReadDir ts])"
    by (auto simp: getCerts_def Let_def)
next
  assume "Stat env ts = Some fi \<and> (IsDir fi \<or> \<not> IsRegular fi) \<and>
          ReadDir env ts = Some names \<and> names \<noteq> []"
  then show "getCerts env ts =
               ((foldl AddCert NewCertPool (concat (map (fileCerts env ts) names)),
                 if Subjects (foldl AddCert NewCertPool (concat (map (fileCerts env ts) names))) = []
                 then Some (ErrTruststoreNoCerts ts) else None),
                [OsStat ts, IoReadDir ts] @ concat (map (certFileEvents env ts) names))"
    using getCerts_directory[of env ts fi names] by blast
qed

lemmas example_defs = exampleEnv_def exampleStat_def exampleReadDir_def exampleReadFile_def
  exampleDecodePEM_def exampleCert_def exampleConfig_def

lemmas certs_defs = fileCerts_def certFileEvents_def unreadableFile_def certFileName_def
  validCertFile_def corruptCertFile_def AddCert_def poolContains_def Subjects_def
  NewCertPool_def warnings_def

text \<open>
  The theorem in the example file system, once for each outcome: a path that does not
  exist, a regular file, an empty directory, a directory without certificate, and a
  directory with one.
\<close>

theorem getCerts_outcomes_witness:
  "getCerts exampleEnv ''/nowhere'' =
     (([], Some (ErrTruststoreNotExist ''/nowhere'')), [OsStat ''/nowhere'']) \<and>
   getCerts exampleEnv ''/ca.pem'' =
     (([], Some (ErrTruststoreNotDir ''/ca.pem'')), [OsStat ''/ca.pem'']) \<and>
   getCerts exampleEnv ''/empty'' =
     (([], Some (ErrTruststoreUnreadable ''/empty'')), [OsStat ''/empty'', IoReadDir ''/empty'']) \<and>
   getCerts exampleEnv ''/garbage'' =
     (([], Some (ErrTruststoreNoCerts ''/garbage'')),
      [OsStat ''/garbage'', IoReadDir ''/garbage'', IoReadFile ''/garbage/junk.txt'']) \<and>
   getCerts exampleEnv ''/certs'' =
     (([exampleCert], None),
      [OsStat ''/certs'', IoReadDir ''/certs'', IoReadFile ''/certs/ca.pem'',
       IoReadFile ''/certs/junk.txt'', IoReadFile ''/certs/locked.pem'',
       Warnf (MsgCertUnreadable ''locked.pem'')])"
proof -
  let ?dir = "\<lparr>IsDir = True, IsRegular = False\<rparr>"
  let ?file = "\<lparr>IsDir = False, IsRegular = True\<rparr>"
  have a: "getCerts exampleEnv ''/nowhere'' =
             (([], Some (ErrTruststoreNotExist ''/nowhere'')), [OsStat ''/nowhere''])"
    using getCerts_outcomes[of exampleEnv "''/nowhere''" ?dir "[]", THEN conjunct1]
    by (simp add: example_defs NewCertPool_def)
  have b: "getCerts exampleEnv ''/ca.pem'' =
             (([], Some (ErrTruststoreNotDir ''/ca.pem'')), [OsStat ''/ca.pem''])"
    using getCerts_outcomes[of exampleEnv "''/ca.pem''" ?file "[]",
        THEN conjunct2, THEN conjunct1]
    by (simp add: example_defs NewCertPool_def)
  have c: "getCerts exampleEnv ''/empty'' =
             (([], Some (ErrTruststoreUnreadable ''/empty'')),
              [OsStat ''/empty'', IoReadDir ''/empty''])"
    using getCerts_outcomes[of exampleEnv "''/empty''" ?dir "[]",
        THEN conjunct2, THEN conjunct2, THEN conjunct1]
    by (simp add: example_defs NewCertPool_def)
  have d: "getCerts exampleEnv ''/garbage'' =
             (([], Some (ErrTruststoreNoCerts ''/garbage'')),
              [OsStat ''/garbage'', IoReadDir ''/garbage'', IoReadFile ''/garbage/junk.txt''])"
    using getCerts_outcomes[of exampleEnv "''/garbage''" ?dir "[''junk.txt'']",
        THEN conjunct2, THEN conjunct2, THEN conjunct2]
    by (simp add: example_defs certs_defs)
  have e: "getCerts exampleEnv ''/certs'' =
             (([exampleCert], None),
              [OsStat ''/certs'', IoReadDir ''/certs'', IoReadFile ''/certs/ca.pem'',
               IoReadFile ''/certs/junk.txt'', IoReadFile ''/certs/locked.pem'',
               Warnf (MsgCertUnreadable ''locked.pem'')])"
    using getCerts_outcomes[of exampleEnv "''/certs''" ?dir
        "[''ca.pem'', ''junk.txt'', ''locked.pem'']",
        THEN conjunct2, THEN conjunct2, THEN conjunct2]
    by (simp add: example_defs certs_defs)
  from a b c d e show ?thesis by (intro conjI)
qed

text \<open>
  Claim C3, as amended. In a trust-store directory of which at least one entry is a valid
  certificate file, loading succeeds and the pool holds the certificates of all entries;
  one warning is emitted for each entry whose read fails, and none for an entry that is
  read but holds no certificate. When every valid file holds one certificate and these
  certificates differ from one another, the pool has as many subjects as there are valid
  files.
\<close>

theorem getCerts_valid_files:
  assumes "Stat env ts = Some fi" and "IsDir fi \<or> \<not> IsRegular fi"
    and "ReadDir env ts = Some names" and "\<exists>n\<in>set names. validCertFile env ts n"
  shows "\<exists>pool log.
           getCerts env ts = ((pool, None), log) \<and>
           pool = foldl AddCert NewCertPool (concat (map (fileCerts env ts) names)) \<and>
           Subjects pool \<noteq> [] \<and>
           length (warnings log) = length (filter (unreadableFile env ts) names) \<and>
           ((\<forall>n\<in>set names. length (fileCerts env ts n) \<le> 1) \<and>
            distinct (map Raw (concat (map (fileCerts env ts) names))) \<longrightarrow>
            length (Subjects pool) = length (filter (validCertFile env ts) names))"
proof -
  let ?cs = "concat (map (fileCerts env ts) names)"
  let ?pool = "foldl AddCert NewCertPool ?cs"
  let ?log = "[OsStat ts, IoReadDir ts] @ concat (map (certFileEvents env ts) names)"
  have names: "names \<noteq> []" using assms(4) by auto
  have cs: "?cs \<noteq> []"
    using assms(4) concat_not_Nil[of names "fileCerts env ts"] by (simp add: validCertFile_def)
  then have pool: "?pool \<noteq> []" by (rule foldl_AddCert_not_Nil)
  then have subj: "Subjects ?pool \<noteq> []" by (simp add: Subjects_def)
  have res: "getCerts env ts = ((?pool, None), ?log)"
    using getCerts_directory[OF assms(1) assms(2) assms(3) names] subj by simp
  have warn: "length (warnings ?log) = length (filter (unreadableFile env ts) names)"
    using warnings_all_files[of env ts names] by (simp add: warnings_append warnings_def)
  have count: "length (Subjects ?pool) = length (filter (validCertFile env ts) names)"
    if one: "\<forall>n\<in>set names. length (fileCerts env ts n) \<le> 1" and dist: "distinct (map Raw ?cs)"
  proof -
    have "?pool = ?cs" using foldl_AddCert_distinct[of "[]" ?cs] dist
      by (simp add: NewCertPool_def)
    then have "length (Subjects ?pool) = length ?cs" by (simp add: Subjects_def)
    also have "\<dots> = length (filter (\<lambda>n. fileCerts env ts n \<noteq> []) names)"
      using one by (rule length_concat_at_most_one)
    also have "\<dots> = length (filter (validCertFile env ts) names)"
      by (simp add: validCertFile_def[abs_def])
    finally show ?thesis .
  qed
  show ?thesis
    using res subj warn count by (intro exI[of _ ?pool] exI[of _ ?log]) simp
qed

text \<open>
  The theorem at the trust store \<^verbatim>\<open>/certs\<close> of the example: one valid file of three, one
  subject in the pool, and one warning, for the file that cannot be read.
\<close>

theorem getCerts_valid_files_witness:
  "\<exists>pool log. getCerts exampleEnv ''/certs'' = ((pool, None), log) \<and>
              length (Subjects pool) = 1 \<and> length (warnings log) = 1"
proof -
  let ?names = "[''ca.pem'', ''junk.txt'', ''locked.pem'']"
  have h1: "Stat exampleEnv ''/certs'' = Some \<lparr>IsDir = True, IsRegular = False\<rparr>"
    by (simp add: example_defs)
  have h2: "IsDir \<lparr>IsDir = True, IsRegular = False\<rparr> \<or> \<not> IsRegular \<lparr>IsDir = True, IsRegular = False\<rparr>"
    by simp
  have h3: "ReadDir exampleEnv ''/certs'' = Some ?names"
    by (simp add: example_defs)
  have h4: "\<exists>n\<in>set ?names. validCertFile exampleEnv ''/certs'' n"
    by (simp add: example_defs certs_defs)
  from getCerts_valid_files[OF h1 h2 h3 h4]
  obtain pool where "\<exists>log.
           getCerts exampleEnv ''/certs'' = ((pool, None), log) \<and>
           pool = foldl AddCert NewCertPool (concat (map (fileCerts exampleEnv ''/certs'') ?names)) \<and>
           Subjects pool \<noteq> [] \<and>
           length (warnings log) = length (filter (unreadableFile exampleEnv ''/certs'') ?names) \<and>
           ((\<forall>n\<in>set ?names. length (fileCerts exampleEnv ''/certs'' n) \<le> 1) \<and>
            distinct (map Raw (concat (map (fileCerts exampleEnv ''/certs'') ?names))) \<longrightarrow>
            length (Subjects pool) = length (filter (validCertFile exampleEnv ''/certs'') ?names))" ..
  then obtain log where all:
          "getCerts exampleEnv ''/certs'' = ((pool, None), log) \<and>
           pool = foldl AddCert NewCertPool (concat (map (fileCerts exampleEnv ''/certs'') ?names)) \<and>
           Subjects pool \<noteq> [] \<and>
           length (warnings log) = length (filter (unreadableFile exampleEnv ''/certs'') ?names) \<and>
           ((\<forall>n\<in>set ?names. length (fileCerts exampleEnv ''/certs'' n) \<le> 1) \<and>
            distinct (map Raw (concat (map (fileCerts exampleEnv ''/certs'') ?names))) \<longrightarrow>
            length (Subjects pool) = length (filter (validCertFile exampleEnv ''/certs'') ?names))" ..
  have res: "getCerts exampleEnv ''/certs'' = ((pool, None), log)"
    using all by (rule conjunct1)
  have "length (warnings log) = length (filter (unreadableFile exampleEnv ''/certs'') ?names)"
    using all by (elim conjE)
  then have warn: "length (warnings log) = 1"
    by (simp add: example_defs certs_defs)
  have one: "(\<forall>n\<in>set ?names. length (fileCerts exampleEnv ''/certs'' n) \<le> 1) \<and>
             distinct (map Raw (concat (map (fileCerts exampleEnv ''/certs'') ?names)))"
    by (simp add: example_defs certs_defs)
  have imp: "(\<forall>n\<in>set ?names. length (fileCerts exampleEnv ''/certs'' n) \<le> 1) \<and>
             distinct (map Raw (concat (map (fileCerts exampleEnv ''/certs'') ?names))) \<longrightarrow>
             length (Subjects pool) = length (filter (validCertFile exampleEnv ''/certs'') ?names)"
    using all by (elim conjE)
  have "length (Subjects pool) = length (filter (validCertFile exampleEnv ''/certs'') ?names)"
    by (rule mp[OF imp one])
  then have subj: "length (Subjects pool) = 1"
    by (simp add: example_defs fileCerts_def validCertFile_def certFileName_def)
  from res subj warn show ?thesis by (intro exI conjI)
qed

text \<open>
  Claim C3 as stated fails. In \<^verbatim>\<open>/certs\<close> one entry of three is valid and two are corrupt,
  one that cannot be read and one that holds no certificate; loading succeeds with one
  warning, not two, because a file without certificate is skipped silently. In \<^verbatim>\<open>/dup\<close>
  both entries are valid and hold the same certificate; the pool has one subject, not two.
\<close>

theorem getCerts_warning_per_corrupt_file_counterexample:
  "ReadDir exampleEnv ''/certs'' = Some [''ca.pem'', ''junk.txt'', ''locked.pem''] \<and>
   length (filter (validCertFile exampleEnv ''/certs'') [''ca.pem'', ''junk.txt'', ''locked.pem'']) = 1 \<and>
   length (filter (corruptCertFile exampleEnv ''/certs'') [''ca.pem'', ''junk.txt'', ''locked.pem'']) = 2 \<and>
   snd (fst (getCerts exampleEnv ''/certs'')) = None \<and>
   length (warnings (snd (getCerts exampleEnv ''/certs''))) = 1 \<and>
   ReadDir exampleEnv ''/dup'' = Some [''a.pem'', ''b.pem''] \<and>
   length (filter (validCertFile exampleEnv ''/dup'') [''a.pem'', ''b.pem'']) = 2 \<and>
   snd (fst (getCerts exampleEnv ''/dup'')) = None \<and>
   length (Subjects (fst (fst (getCerts exampleEnv ''/dup'')))) = 1"
  by (simp add: getCerts_def loadCertFiles_def certFileStep_def AppendCertsFromPEM_def
        example_defs certs_defs)


section \<open>Building the client configuration\<close>

lemma validateBrokers_Inr_iff:
  "validateBrokers urls = Inr bs \<longleftrightarrow> bs = urls \<and> (\<forall>b\<in>set urls. validateBrokerUrl b = None)"
  by (induction urls arbitrary: bs) (auto split: option.splits sum.splits)

lemma validateBrokers_Inl:
  "validateBrokers urls = Inl e \<Longrightarrow> \<exists>b r. e = ErrBrokerFormat b r"
  by (induction urls) (auto split: option.splits sum.splits)

lemma validateBrokers_valid:
  "\<forall>b\<in>set urls. validateBrokerUrl b = None \<Longrightarrow> validateBrokers urls = Inr urls"
  by (simp add: validateBrokers_Inr_iff)

lemma validateBrokerUrl_empty: "validateBrokerUrl [] = Some ErrSections"
  by (simp add: validateBrokerUrl_def)

lemma getCerts_error_kind:
  "snd (fst (getCerts env ts)) = Some e \<Longrightarrow>
   e = ErrTruststoreNotExist ts \<or> e = ErrTruststoreNotDir ts \<or>
   e = ErrTruststoreUnreadable ts \<or> e = ErrTruststoreNoCerts ts"
  by (auto simp: getCerts_def Let_def split: option.splits if_splits)

lemma certFileEvents_no_network: "\<forall>ev\<in>set (certFileEvents env ts name). \<not> isNetwork ev"
  by (simp add: certFileEvents_def)

lemma getCerts_log_no_network: "\<forall>ev\<in>set (snd (getCerts env ts)). \<not> isNetwork ev"
  using certFileEvents_no_network[of env ts]
  by (auto simp: getCerts_def Let_def loadCertFiles_log split: option.splits if_splits)

lemma tlsSetup_no_truststore: "TrustStore s = [] \<Longrightarrow> tlsSetup env s cfg = (Inr cfg, [])"
  by (simp add: tlsSetup_def)

lemma tlsSetup_loaded:
  assumes "TrustStore s \<noteq> []" "getCerts env (TrustStore s) = ((pool, None), log)"
  shows "tlsSetup env s cfg =
           (Inr (cfg\<lparr>NetTLSEnable := True,
                      NetTLSConfig := Some \<lparr>RootCAs = Some pool, InsecureSkipVerify = True\<rparr>\<rparr>),
            log @ [Debugf (MsgTruststore (TrustStore s))])"
  using assms by (simp add: tlsSetup_def)

lemma tlsSetup_failed:
  assumes "TrustStore s \<noteq> []" "getCerts env (TrustStore s) = ((pool, Some e), log)"
  shows "tlsSetup env s cfg = (Inl e, log)"
  using assms by (simp add: tlsSetup_def)

lemma tlsSetup_error_kind:
  assumes "fst (tlsSetup env s cfg) = Inl e"
  shows "e = ErrTruststoreNotExist (TrustStore s) \<or> e = ErrTruststoreNotDir (TrustStore s) \<or>
         e = ErrTruststoreUnreadable (TrustStore s) \<or> e = ErrTruststoreNoCerts (TrustStore s)"
proof (cases "TrustStore s = []")
  case True
  then show ?thesis using assms by (simp add: tlsSetup_def)
next
  case False
  obtain pool r log where g: "getCerts env (TrustStore s) = ((pool, r), log)"
    by (metis surj_pair)
  show ?thesis
  proof (cases r)
    case None
    then show ?thesis using assms False g by (simp add: tlsSetup_def)
  next
    case (Some e')
    then have "e' = e" using assms False g by (simp add: tlsSetup_def)
    then show ?thesis using getCerts_error_kind[of env "TrustStore s" e] g Some by simp
  qed
qed

lemma tlsSetup_log_no_network: "\<forall>ev\<in>set (snd (tlsSetup env s cfg)). \<not> isNetwork ev"
proof (cases "TrustStore s = []")
  case True
  then show ?thesis by (simp add: tlsSetup_def)
next
  case False
  obtain pool r log where g: "getCerts env (TrustStore s) = ((pool, r), log)"
    by (metis surj_pair)
  have "\<forall>ev\<in>set log. \<not> isNetwork ev"
    using getCerts_log_no_network[of env "TrustStore s"] g by simp
  then show ?thesis using False g by (cases r) (auto simp: tlsSetup_def)
qed

lemma saslSetup_no_password:
  "User s \<noteq> [] \<Longrightarrow> Password s = [] \<Longrightarrow> saslSetup s cfg = (Inl (ErrNoPassword (User s)), [])"
  by (simp add: saslSetup_def)

lemma saslSetup_consistent:
  "User s = [] \<or> Password s \<noteq> [] \<Longrightarrow>
   \<exists>cfg' log. saslSetup s cfg = (Inr cfg', log) \<and> NetTLSEnable cfg' = NetTLSEnable cfg \<and>
               NetTLSConfig cfg' = NetTLSConfig cfg"
  by (auto simp: saslSetup_def)

lemma saslSetup_error_kind: "fst (saslSetup s cfg) = Inl e \<Longrightarrow> e = ErrNoPassword (User s)"
  by (auto simp: saslSetup_def split: if_splits)

lemma saslSetup_log_quiet:
  "\<forall>ev\<in>set (snd (saslSetup s cfg)). \<not> isNetwork ev \<and> \<not> isFilesystem ev"
  by (auto simp: saslSetup_def)


lemma buildConfigFrom_empty:
  "buildConfigFrom env s [] = (Inl (ErrNoBroker (BrokerUrls s)), [])"
  by (simp add: buildConfigFrom_def)

lemma buildConfigFrom_invalid:
  assumes "urls \<noteq> []" "validateBrokers urls = Inl e"
  shows "buildConfigFrom env s urls = (Inl e, [])"
proof -
  have "\<not> length urls < 1" using assms(1) by (cases urls) simp_all
  then show ?thesis using assms(2) by (simp add: buildConfigFrom_def)
qed

lemma buildConfigFrom_valid:
  fixes env :: "('p, 'c, 'e) Env"
  assumes "urls \<noteq> []" "\<forall>b\<in>set urls. validateBrokerUrl b = None"
  shows "buildConfigFrom env s urls =
           (case tlsSetup env s (producerConfig env) of
              (Inl e, log1) \<Rightarrow> (Inl e, [Debugf (MsgBrokers urls)] @ log1)
            | (Inr cfg1, log1) \<Rightarrow>
                (case saslSetup s cfg1 of
                   (Inl e, log2) \<Rightarrow> (Inl e, [Debugf (MsgBrokers urls)] @ log1 @ log2)
                 | (Inr cfg2, log2) \<Rightarrow>
                     (Inr (urls, cfg2), [Debugf (MsgBrokers urls)] @ log1 @ log2)))"
proof -
  have len: "\<not> length urls < 1" using assms(1) by (cases urls) simp_all
  have val: "validateBrokers urls = (Inr urls :: 'e Error + string list)"
    using assms(2) by (rule validateBrokers_valid)
  show ?thesis unfolding buildConfigFrom_def Let_def using len val by simp
qed

lemma buildConfigFrom_error_kind:
  fixes env :: "('p, 'c, 'e) Env"
  assumes "urls \<noteq> []" "fst (buildConfigFrom env s urls) = Inl e"
  shows "e \<noteq> ErrNoBroker u"
proof (cases "validateBrokers urls :: 'e Error + string list")
  case (Inl e')
  then have "buildConfigFrom env s urls = (Inl e', [])"
    using assms(1) by (rule buildConfigFrom_invalid[rotated])
  then have "e = e'" using assms(2) by simp
  then show ?thesis using validateBrokers_Inl[OF Inl] by auto
next
  case (Inr bs)
  then have valid: "\<forall>b\<in>set urls. validateBrokerUrl b = None"
    by (simp add: validateBrokers_Inr_iff)
  obtain r1 log1 where t: "tlsSetup env s (producerConfig env) = (r1, log1)" by (metis surj_pair)
  show ?thesis
  proof (cases r1)
    case (Inl e1)
    then have "e = e1" using assms t buildConfigFrom_valid[OF assms(1) valid, of env s] by simp
    then show ?thesis
      using tlsSetup_error_kind[of env s "producerConfig env" e1] t Inl by auto
  next
    case (Inr cfg1)
    obtain r2 log2 where sa: "saslSetup s cfg1 = (r2 :: 'e Error + Config, log2)" by (metis surj_pair)
    show ?thesis
    proof (cases r2)
      case (Inl e2)
      then have "e = e2"
        using assms t Inr sa buildConfigFrom_valid[OF assms(1) valid, of env s] by simp
      then show ?thesis using saslSetup_error_kind[of s cfg1 e2] sa Inl by auto
    next
      case r2: (Inr cfg2)
      then show ?thesis
        using assms t Inr sa buildConfigFrom_valid[OF assms(1) valid, of env s] by simp
    qed
  qed
qed

lemma buildConfigFrom_log_no_network:
  fixes env :: "('p, 'c, 'e) Env"
  shows "\<forall>ev\<in>set (snd (buildConfigFrom env s urls)). \<not> isNetwork ev"
proof (cases "urls = []")
  case True
  then show ?thesis by (simp add: buildConfigFrom_empty)
next
  case ne: False
  show ?thesis
  proof (cases "validateBrokers urls :: 'e Error + string list")
    case (Inl e')
    then have "buildConfigFrom env s urls = (Inl e', [])"
      using ne by (rule buildConfigFrom_invalid[rotated])
    then show ?thesis by simp
  next
    case (Inr bs)
    then have valid: "\<forall>b\<in>set urls. validateBrokerUrl b = None"
      by (simp add: validateBrokers_Inr_iff)
    obtain r1 log1 where t: "tlsSetup env s (producerConfig env) = (r1, log1)" by (metis surj_pair)
    have l1: "\<forall>ev\<in>set log1. \<not> isNetwork ev"
      using tlsSetup_log_no_network[of env s "producerConfig env"] t by simp
    show ?thesis
    proof (cases r1)
      case (Inl e1)
      then show ?thesis using t l1 buildConfigFrom_valid[OF ne valid, of env s] by simp
    next
      case (Inr cfg1)
      obtain r2 log2 where sa: "saslSetup s cfg1 = (r2 :: 'e Error + Config, log2)" by (metis surj_pair)
      have l2: "\<forall>ev\<in>set log2. \<not> isNetwork ev"
        using saslSetup_log_quiet[of s cfg1, where ?'a = 'e] sa by simp
      show ?thesis using t Inr sa l1 l2 buildConfigFrom_valid[OF ne valid, of env s]
        by (cases r2) auto
    qed
  qed
qed

lemma getKafkaConnection_failed_build:
  assumes "buildConfig env s = (Inl e, log)"
  shows "getKafkaConnection env s = (Inl e, log)"
  using assms by (simp add: getKafkaConnection_def)

lemma getKafkaConnection_empty_urls:
  fixes env :: "('p, 'c, 'e) Env"
  assumes "BrokerUrls s = []"
  shows "getKafkaConnection env s = (Inl (ErrBrokerFormat [] ErrSections), [])"
proof -
  have "validateBrokers [[]] = (Inl (ErrBrokerFormat [] ErrSections) :: 'e Error + string list)"
    by (simp add: validateBrokerUrl_empty)
  then have "buildConfigFrom env s [[]] = (Inl (ErrBrokerFormat [] ErrSections), [])"
    by (rule buildConfigFrom_invalid[rotated]) simp
  then have "buildConfig env s = (Inl (ErrBrokerFormat [] ErrSections), [])"
    using assms by (simp add: buildConfig_def)
  then show ?thesis by (rule getKafkaConnection_failed_build)
qed

lemma getKafkaConnection_error_kind:
  "fst (getKafkaConnection env s) \<noteq> Inl (ErrNoBroker u)"
proof -
  let ?urls = "Split (BrokerUrls s) CHR '',''"
  have ne: "?urls \<noteq> []" by (rule Split_not_Nil)
  obtain r log where b: "buildConfig env s = (r, log)" by (metis surj_pair)
  show ?thesis
  proof (cases r)
    case (Inl e)
    then have "fst (buildConfigFrom env s ?urls) = Inl e" using b by (simp add: buildConfig_def)
    then have "e \<noteq> ErrNoBroker u" by (rule buildConfigFrom_error_kind[OF ne])
    moreover have "getKafkaConnection env s = (Inl e, log)"
      using b Inl by (simp add: getKafkaConnection_def)
    ultimately show ?thesis by simp
  next
    case (Inr bc)
    then show ?thesis using b
      by (cases bc) (auto simp: getKafkaConnection_def Let_def split: sum.splits)
  qed
qed

lemmas builder_defs = getKafkaConnection_def buildConfig_def buildConfigFrom_def tlsSetup_def
  saslSetup_def producerConfig_def getCerts_def loadCertFiles_def certFileStep_def
  AppendCertsFromPEM_def validateBrokerUrl_def Atoi_def isDigit_def digitVal_def Let_def

text \<open>
  Claim C6. With an empty broker-list string the construction fails with an error of the
  kind InvalidConfiguration, the address-format error for the empty address, and its log is
  empty: nothing was logged, no file was touched and no constructor of sarama was called.
  The test for a broker list without entry is there as well: given the empty list, the
  lines after the split fail with the error "require at least one broker" and an empty
  log.
\<close>

theorem empty_broker_urls_rejected:
  fixes env :: "('p, 'c, 'e) Env"
  shows "(BrokerUrls s = [] \<longrightarrow>
            (\<exists>e. getKafkaConnection env s = (Inl e, []) \<and>
                 e = ErrBrokerFormat [] ErrSections \<and> specInvalidConfiguration e)) \<and>
         (\<exists>e. buildConfigFrom env s [] = (Inl e, []) \<and>
              e = ErrNoBroker (BrokerUrls s) \<and> specInvalidConfiguration e)"
  by (simp add: getKafkaConnection_empty_urls buildConfigFrom_empty)

text \<open>
  The theorem at settings with an empty broker list, a user, a password and a trust
  store, in the example environment: the error is returned and the log is empty.
\<close>

theorem empty_broker_urls_rejected_witness:
  "getKafkaConnection exampleEnv
     \<lparr>BrokerUrls = [], User = ''alice'', Password = ''secret'', TrustStore = ''/certs''\<rparr>
   = (Inl (ErrBrokerFormat [] ErrSections), [])"
proof -
  let ?s = "\<lparr>BrokerUrls = [], User = ''alice'', Password = ''secret'', TrustStore = ''/certs''\<rparr>"
  have h: "BrokerUrls ?s = []" by simp
  note inst = empty_broker_urls_rejected[of ?s exampleEnv, THEN conjunct1]
  from mp[OF inst h] obtain e where
    "getKafkaConnection exampleEnv ?s = (Inl e, []) \<and>
     e = ErrBrokerFormat [] ErrSections \<and> specInvalidConfiguration e" ..
  then show ?thesis by simp
qed

text \<open>
  Claim C10. Splitting any string yields at least one segment, so \<^verbatim>\<open>getKafkaConnection\<close>
  never returns the error "require at least one broker". The empty broker-list string is
  split into the one empty address, which the address validation rejects: the construction
  fails with the address-format error that names the empty address.
\<close>

theorem empty_list_error_unreachable:
  fixes env :: "('p, 'c, 'e) Env"
  shows "1 \<le> length (Split urls CHR '','') \<and>
         fst (getKafkaConnection env s) \<noteq> Inl (ErrNoBroker u) \<and>
         (BrokerUrls s = [] \<longrightarrow>
            Split (BrokerUrls s) CHR '','' = [[]] \<and>
            validateBrokerUrl [] = Some ErrSections \<and>
            fst (getKafkaConnection env s) = Inl (ErrBrokerFormat [] ErrSections))"
proof (intro conjI impI)
  show "1 \<le> length (Split urls CHR '','')" by (simp add: length_Split)
  show "fst (getKafkaConnection env s) \<noteq> Inl (ErrNoBroker u)"
    by (rule getKafkaConnection_error_kind)
next
  assume e: "BrokerUrls s = []"
  then show "Split (BrokerUrls s) CHR '','' = [[]]" by simp
  show "validateBrokerUrl [] = Some ErrSections" by (rule validateBrokerUrl_empty)
  show "fst (getKafkaConnection env s) = Inl (ErrBrokerFormat [] ErrSections)"
    using getKafkaConnection_empty_urls[OF e, of env] by simp
qed

text \<open>
  The theorem at the settings that are empty throughout, in the example environment.
\<close>

theorem empty_list_error_unreachable_witness:
  "Split (BrokerUrls \<lparr>BrokerUrls = [], User = [], Password = [], TrustStore = []\<rparr>) CHR '','' = [[]] \<and>
   fst (getKafkaConnection exampleEnv \<lparr>BrokerUrls = [], User = [], Password = [], TrustStore = []\<rparr>)
     = Inl (ErrBrokerFormat [] ErrSections)"
proof -
  let ?s = "\<lparr>BrokerUrls = [], User = [], Password = [], TrustStore = []\<rparr>"
  have h: "BrokerUrls ?s = []" by simp
  note inst = empty_list_error_unreachable[of _ exampleEnv ?s,
      THEN conjunct2, THEN conjunct2]
  have all: "Split (BrokerUrls ?s) CHR '','' = [[]] \<and>
        validateBrokerUrl [] = Some ErrSections \<and>
        fst (getKafkaConnection exampleEnv ?s) = Inl (ErrBrokerFormat [] ErrSections)"
    by (rule mp[OF inst h])
  then show ?thesis by (elim conjE) (intro conjI)
qed

section \<open>Credentials and the trust store in \<^verbatim>\<open>getKafkaConnection\<close>\<close>

lemma buildConfig_valid:
  fixes env :: "('p, 'c, 'e) Env"
  assumes "\<forall>b\<in>set (Split (BrokerUrls s) CHR '',''). validateBrokerUrl b = None"
  shows "buildConfig env s =
           (case tlsSetup env s (producerConfig env) of
              (Inl e, log1) \<Rightarrow> (Inl e, [Debugf (MsgBrokers (Split (BrokerUrls s) CHR '',''))] @ log1)
            | (Inr cfg1, log1) \<Rightarrow>
                (case saslSetup s cfg1 of
                   (Inl e, log2) \<Rightarrow>
                     (Inl e, [Debugf (MsgBrokers (Split (BrokerUrls s) CHR '',''))] @ log1 @ log2)
                 | (Inr cfg2, log2) \<Rightarrow>
                     (Inr (Split (BrokerUrls s) CHR '','', cfg2),
                      [Debugf (MsgBrokers (Split (BrokerUrls s) CHR '',''))] @ log1 @ log2)))"
  unfolding buildConfig_def
  by (rule buildConfigFrom_valid[OF Split_not_Nil assms])

lemma buildConfig_log_no_network:
  fixes env :: "('p, 'c, 'e) Env"
  shows "\<forall>ev\<in>set (snd (buildConfig env s)). \<not> isNetwork ev"
  unfolding buildConfig_def by (rule buildConfigFrom_log_no_network)

lemma buildConfig_no_password:
  fixes env :: "('p, 'c, 'e) Env"
  assumes "User s \<noteq> []" "Password s = []"
  shows "\<exists>e. fst (buildConfig env s) = Inl e"
proof (cases "validateBrokers (Split (BrokerUrls s) CHR '','') :: 'e Error + string list")
  case (Inl e')
  then have "buildConfigFrom env s (Split (BrokerUrls s) CHR '','') = (Inl e', [])"
    by (rule buildConfigFrom_invalid[OF Split_not_Nil])
  then show ?thesis by (simp add: buildConfig_def)
next
  case (Inr bs)
  then have valid: "\<forall>b\<in>set (Split (BrokerUrls s) CHR '',''). validateBrokerUrl b = None"
    by (simp add: validateBrokers_Inr_iff)
  obtain r1 log1 where t: "tlsSetup env s (producerConfig env) = (r1, log1)" by (metis surj_pair)
  show ?thesis
  proof (cases r1)
    case (Inl e1)
    then show ?thesis using t buildConfig_valid[OF valid, of env] by simp
  next
    case (Inr cfg1)
    have "saslSetup s cfg1 = (Inl (ErrNoPassword (User s)) :: 'e Error + Config, [])"
      using assms by (rule saslSetup_no_password)
    then show ?thesis using t Inr buildConfig_valid[OF valid, of env] by simp
  qed
qed

lemma getKafkaConnection_no_password_plain:
  fixes env :: "('p, 'c, 'e) Env"
  assumes "User s \<noteq> []" "Password s = []"
    and "\<forall>b\<in>set (Split (BrokerUrls s) CHR '',''). validateBrokerUrl b = None"
    and "TrustStore s = []"
  shows "getKafkaConnection env s =
           (Inl (ErrNoPassword (User s)), [Debugf (MsgBrokers (Split (BrokerUrls s) CHR '',''))])"
proof -
  have t: "tlsSetup env s (producerConfig env) = (Inr (producerConfig env), [])"
    using assms(4) by (rule tlsSetup_no_truststore)
  have sa: "saslSetup s (producerConfig env) = (Inl (ErrNoPassword (User s)) :: 'e Error + Config, [])"
    using assms(1,2) by (rule saslSetup_no_password)
  have "buildConfig env s =
          (Inl (ErrNoPassword (User s)), [Debugf (MsgBrokers (Split (BrokerUrls s) CHR '',''))])"
    using buildConfig_valid[OF assms(3), of env] t sa by simp
  then show ?thesis by (rule getKafkaConnection_failed_build)
qed

lemma getKafkaConnection_no_password_tls:
  fixes env :: "('p, 'c, 'e) Env"
  assumes "User s \<noteq> []" "Password s = []"
    and "\<forall>b\<in>set (Split (BrokerUrls s) CHR '',''). validateBrokerUrl b = None"
    and "TrustStore s \<noteq> []" "getCerts env (TrustStore s) = ((pool, None), log)"
  shows "getKafkaConnection env s =
           (Inl (ErrNoPassword (User s)),
            [Debugf (MsgBrokers (Split (BrokerUrls s) CHR '',''))] @ log @
            [Debugf (MsgTruststore (TrustStore s))])"
proof -
  let ?cfg1 = "(producerConfig env)\<lparr>NetTLSEnable := True,
                 NetTLSConfig := Some \<lparr>RootCAs = Some pool, InsecureSkipVerify = True\<rparr>\<rparr>"
  have t: "tlsSetup env s (producerConfig env) =
             (Inr ?cfg1, log @ [Debugf (MsgTruststore (TrustStore s))])"
    using assms(4,5) by (rule tlsSetup_loaded)
  have sa: "saslSetup s ?cfg1 = (Inl (ErrNoPassword (User s)) :: 'e Error + Config, [])"
    using assms(1,2) by (rule saslSetup_no_password)
  have "buildConfig env s =
          (Inl (ErrNoPassword (User s)),
           [Debugf (MsgBrokers (Split (BrokerUrls s) CHR '',''))] @ log @
           [Debugf (MsgTruststore (TrustStore s))])"
    using buildConfig_valid[OF assms(3), of env] t sa by simp
  then show ?thesis by (rule getKafkaConnection_failed_build)
qed

lemma validateBrokers_first_invalid:
  "\<forall>a\<in>set pre. validateBrokerUrl a = None \<Longrightarrow> validateBrokerUrl b = Some r \<Longrightarrow>
   validateBrokers (pre @ b # rest) = Inl (ErrBrokerFormat b r)"
  by (induction pre) simp_all

lemma getKafkaConnection_invalid_broker:
  fixes env :: "('p, 'c, 'e) Env"
  assumes "Split (BrokerUrls s) CHR '','' = pre @ b # rest"
    and "\<forall>a\<in>set pre. validateBrokerUrl a = None" and "validateBrokerUrl b = Some r"
  shows "getKafkaConnection env s = (Inl (ErrBrokerFormat b r), [])"
proof -
  have "validateBrokers (pre @ b # rest) = (Inl (ErrBrokerFormat b r) :: 'e Error + string list)"
    using assms(2,3) by (rule validateBrokers_first_invalid)
  then have "buildConfigFrom env s (pre @ b # rest) = (Inl (ErrBrokerFormat b r), [])"
    by (rule buildConfigFrom_invalid[rotated]) simp
  then have "buildConfig env s = (Inl (ErrBrokerFormat b r), [])"
    using assms(1) by (simp add: buildConfig_def)
  then show ?thesis by (rule getKafkaConnection_failed_build)
qed

lemma getKafkaConnection_trust_store_failed:
  fixes env :: "('p, 'c, 'e) Env"
  assumes "\<forall>b\<in>set (Split (BrokerUrls s) CHR '',''). validateBrokerUrl b = None"
    and "TrustStore s \<noteq> []" "getCerts env (TrustStore s) = ((pool, Some err), log)"
  shows "getKafkaConnection env s =
           (Inl err, [Debugf (MsgBrokers (Split (BrokerUrls s) CHR '',''))] @ log)"
proof -
  have t: "tlsSetup env s (producerConfig env) = (Inl err, log)"
    using assms(2,3) by (rule tlsSetup_failed)
  have "buildConfig env s =
          (Inl err, [Debugf (MsgBrokers (Split (BrokerUrls s) CHR '',''))] @ log)"
    using buildConfig_valid[OF assms(1), of env] t by simp
  then show ?thesis by (rule getKafkaConnection_failed_build)
qed

text \<open>
  Claim C2, as amended. With a user name and no password the construction fails, and no
  constructor of sarama has been called by then. What it fails with follows the order of
  the code. The first broker address that does not validate gives the address error, with
  an empty log. With a valid broker list and a trust store that does not load, the error is
  the trust store's, after what \<^verbatim>\<open>getCerts\<close> did. Otherwise the error is the
  missing-password error: without a trust store the log holds the line about the brokers
  only, so no file was touched; with a trust store the trust store has been loaded first,
  and the log holds what \<^verbatim>\<open>getCerts\<close> did.
\<close>

theorem missing_password_rejected:
  fixes env :: "('p, 'c, 'e) Env"
  assumes "User s \<noteq> []" and "Password s = []"
  shows "(\<exists>e. fst (getKafkaConnection env s) = Inl e) \<and>
         (\<forall>ev\<in>set (snd (getKafkaConnection env s)). \<not> isNetwork ev) \<and>
         ((\<forall>b\<in>set (Split (BrokerUrls s) CHR '',''). validateBrokerUrl b = None) \<and>
          TrustStore s = [] \<longrightarrow>
            getKafkaConnection env s =
              (Inl (ErrNoPassword (User s)),
               [Debugf (MsgBrokers (Split (BrokerUrls s) CHR '',''))])) \<and>
         ((\<forall>b\<in>set (Split (BrokerUrls s) CHR '',''). validateBrokerUrl b = None) \<and>
          TrustStore s \<noteq> [] \<and> getCerts env (TrustStore s) = ((pool, None), log) \<longrightarrow>
            getKafkaConnection env s =
              (Inl (ErrNoPassword (User s)),
               [Debugf (MsgBrokers (Split (BrokerUrls s) CHR '',''))] @ log @
               [Debugf (MsgTruststore (TrustStore s))])) \<and>
         (Split (BrokerUrls s) CHR '','' = pre @ bad # rest \<and>
          (\<forall>a\<in>set pre. validateBrokerUrl a = None) \<and> validateBrokerUrl bad = Some reason \<longrightarrow>
            getKafkaConnection env s = (Inl (ErrBrokerFormat bad reason), [])) \<and>
         ((\<forall>b\<in>set (Split (BrokerUrls s) CHR '',''). validateBrokerUrl b = None) \<and>
          TrustStore s \<noteq> [] \<and> getCerts env (TrustStore s) = ((fpool, Some err), flog) \<longrightarrow>
            getKafkaConnection env s =
              (Inl err, [Debugf (MsgBrokers (Split (BrokerUrls s) CHR '',''))] @ flog))"
proof -
  obtain e where e: "fst (buildConfig env s) = Inl e"
    using buildConfig_no_password[OF assms, of env] by blast
  obtain r blog where b: "buildConfig env s = (r, blog)" by (metis surj_pair)
  then have "buildConfig env s = (Inl e, blog)" using e by simp
  then have g: "getKafkaConnection env s = (Inl e, blog)" by (rule getKafkaConnection_failed_build)
  have fails: "\<exists>e. fst (getKafkaConnection env s) = Inl e" using g by simp
  have quiet: "\<forall>ev\<in>set (snd (getKafkaConnection env s)). \<not> isNetwork ev"
    using buildConfig_log_no_network[of env s] b g by simp
  have plain: "(\<forall>b\<in>set (Split (BrokerUrls s) CHR '',''). validateBrokerUrl b = None) \<and>
          TrustStore s = [] \<longrightarrow>
            getKafkaConnection env s =
              (Inl (ErrNoPassword (User s)),
               [Debugf (MsgBrokers (Split (BrokerUrls s) CHR '',''))])"
    using getKafkaConnection_no_password_plain[OF assms, of env] by simp
  have loaded: "(\<forall>b\<in>set (Split (BrokerUrls s) CHR '',''). validateBrokerUrl b = None) \<and>
          TrustStore s \<noteq> [] \<and> getCerts env (TrustStore s) = ((pool, None), log) \<longrightarrow>
            getKafkaConnection env s =
              (Inl (ErrNoPassword (User s)),
               [Debugf (MsgBrokers (Split (BrokerUrls s) CHR '',''))] @ log @
               [Debugf (MsgTruststore (TrustStore s))])"
    using getKafkaConnection_no_password_tls[OF assms, of env pool log] by simp
  have broker: "Split (BrokerUrls s) CHR '','' = pre @ bad # rest \<and>
          (\<forall>a\<in>set pre. validateBrokerUrl a = None) \<and> validateBrokerUrl bad = Some reason \<longrightarrow>
            getKafkaConnection env s = (Inl (ErrBrokerFormat bad reason), [])"
    using getKafkaConnection_invalid_broker[of s pre bad rest reason env] by simp
  have store: "(\<forall>b\<in>set (Split (BrokerUrls s) CHR '',''). validateBrokerUrl b = None) \<and>
          TrustStore s \<noteq> [] \<and> getCerts env (TrustStore s) = ((fpool, Some err), flog) \<longrightarrow>
            getKafkaConnection env s =
              (Inl err, [Debugf (MsgBrokers (Split (BrokerUrls s) CHR '',''))] @ flog)"
    using getKafkaConnection_trust_store_failed[of s env fpool err flog] by simp
  from fails quiet plain loaded broker store show ?thesis by (intro conjI)
qed

text \<open>
  The theorem in the example environment, for a user without password: without trust
  store; with the trust store \<^verbatim>\<open>/certs\<close>, which is read before the password is looked at;
  with a trust store that does not exist; and with a broker address without port.
\<close>

theorem missing_password_rejected_witness:
  "getKafkaConnection exampleEnv
     \<lparr>BrokerUrls = ''kafka:9092'', User = ''alice'', Password = [], TrustStore = []\<rparr>
   = (Inl (ErrNoPassword ''alice''), [Debugf (MsgBrokers [''kafka:9092''])]) \<and>
   getKafkaConnection exampleEnv
     \<lparr>BrokerUrls = ''kafka:9092'', User = ''alice'', Password = [], TrustStore = ''/certs''\<rparr>
   = (Inl (ErrNoPassword ''alice''),
      [Debugf (MsgBrokers [''kafka:9092'']),
       OsStat ''/certs'', IoReadDir ''/certs'', IoReadFile ''/certs/ca.pem'',
       IoReadFile ''/certs/junk.txt'', IoReadFile ''/certs/locked.pem'',
       Warnf (MsgCertUnreadable ''locked.pem''),
       Debugf (MsgTruststore ''/certs'')]) \<and>
   getKafkaConnection exampleEnv
     \<lparr>BrokerUrls = ''kafka:9092'', User = ''alice'', Password = [], TrustStore = ''/empty''\<rparr>
   = (Inl (ErrTruststoreUnreadable ''/empty''),
      [Debugf (MsgBrokers [''kafka:9092'']), OsStat ''/empty'', IoReadDir ''/empty'']) \<and>
   getKafkaConnection exampleEnv
     \<lparr>BrokerUrls = ''kafka:9092,kafka2'', User = ''alice'', Password = [], TrustStore = ''/certs''\<rparr>
   = (Inl (ErrBrokerFormat ''kafka2'' ErrSections), [])"
proof -
  let ?s = "\<lparr>BrokerUrls = ''kafka:9092'', User = ''alice'', Password = [], TrustStore = []\<rparr>"
  let ?t = "\<lparr>BrokerUrls = ''kafka:9092'', User = ''alice'', Password = [], TrustStore = ''/certs''\<rparr>"
  let ?u = "\<lparr>BrokerUrls = ''kafka:9092'', User = ''alice'', Password = [], TrustStore = ''/empty''\<rparr>"
  let ?v = "\<lparr>BrokerUrls = ''kafka:9092,kafka2'', User = ''alice'', Password = [],
             TrustStore = ''/certs''\<rparr>"
  let ?log = "[OsStat ''/certs'', IoReadDir ''/certs'', IoReadFile ''/certs/ca.pem'',
       IoReadFile ''/certs/junk.txt'', IoReadFile ''/certs/locked.pem'',
       Warnf (MsgCertUnreadable ''locked.pem'')]"
  let ?flog = "[OsStat ''/empty'', IoReadDir ''/empty'']"
  have us: "User ?s \<noteq> []" and ps: "Password ?s = []" by simp_all
  have ut: "User ?t \<noteq> []" and pt: "Password ?t = []" by simp_all
  have uu: "User ?u \<noteq> []" and pu: "Password ?u = []" by simp_all
  have uv: "User ?v \<noteq> []" and pv: "Password ?v = []" by simp_all
  have valid: "\<forall>b\<in>set (Split ''kafka:9092'' CHR '',''). validateBrokerUrl b = None"
    by (simp add: validateBrokerUrl_def Atoi_def isDigit_def digitVal_def)
  have certs: "getCerts exampleEnv ''/certs'' = (([exampleCert], None), ?log)"
    by (simp add: getCerts_def loadCertFiles_def certFileStep_def AppendCertsFromPEM_def
          example_defs certs_defs)
  have empty: "getCerts exampleEnv ''/empty'' =
                 (([], Some (ErrTruststoreUnreadable ''/empty'')), ?flog)"
    by (simp add: getCerts_def example_defs certs_defs)
  have split: "Split ''kafka:9092,kafka2'' CHR '','' = [''kafka:9092''] @ ''kafka2'' # []"
    by simp
  have first: "\<forall>a\<in>set [''kafka:9092'']. validateBrokerUrl a = None"
    by (simp add: validateBrokerUrl_def Atoi_def isDigit_def digitVal_def)
  have second: "validateBrokerUrl ''kafka2'' = Some ErrSections"
    by (simp add: validateBrokerUrl_def)
  have a: "getKafkaConnection exampleEnv ?s
             = (Inl (ErrNoPassword ''alice''), [Debugf (MsgBrokers [''kafka:9092''])])"
    using missing_password_rejected[OF us ps, where env = exampleEnv,
        THEN conjunct2, THEN conjunct2, THEN conjunct1] valid
    by simp
  have b: "getKafkaConnection exampleEnv ?t
             = (Inl (ErrNoPassword ''alice''),
                [Debugf (MsgBrokers [''kafka:9092''])] @ ?log @ [Debugf (MsgTruststore ''/certs'')])"
    using missing_password_rejected[OF ut pt, where env = exampleEnv
          and pool = "[exampleCert]" and log = ?log,
        THEN conjunct2, THEN conjunct2, THEN conjunct2, THEN conjunct1] valid certs
    by simp
  have c: "getKafkaConnection exampleEnv ?u
             = (Inl (ErrTruststoreUnreadable ''/empty''),
                [Debugf (MsgBrokers [''kafka:9092''])] @ ?flog)"
    using missing_password_rejected[OF uu pu, where env = exampleEnv
          and fpool = "[]" and err = "ErrTruststoreUnreadable ''/empty''" and flog = ?flog,
        THEN conjunct2, THEN conjunct2, THEN conjunct2, THEN conjunct2, THEN conjunct2]
      valid empty
    by simp
  have d: "getKafkaConnection exampleEnv ?v = (Inl (ErrBrokerFormat ''kafka2'' ErrSections), [])"
    using missing_password_rejected[OF uv pv, where env = exampleEnv
          and pre = "[''kafka:9092'']" and bad = "''kafka2''" and rest = "[]"
          and reason = ErrSections,
        THEN conjunct2, THEN conjunct2, THEN conjunct2, THEN conjunct2, THEN conjunct1]
      split first second
    by simp
  from a b c d show ?thesis by simp
qed

text \<open>
  Claim C2 as stated fails. For a user without password and the trust store \<^verbatim>\<open>/certs\<close>
  the missing-password error comes after the trust store has been read from the file
  system; with a trust store that does not exist the error is the trust store's, and with
  a malformed broker address it is the address error.
\<close>

theorem missing_password_before_trust_store_counterexample:
  "getKafkaConnection exampleEnv
     \<lparr>BrokerUrls = ''kafka:9092'', User = ''alice'', Password = [], TrustStore = ''/certs''\<rparr>
   = (Inl (ErrNoPassword ''alice''),
      [Debugf (MsgBrokers [''kafka:9092'']),
       OsStat ''/certs'', IoReadDir ''/certs'', IoReadFile ''/certs/ca.pem'',
       IoReadFile ''/certs/junk.txt'', IoReadFile ''/certs/locked.pem'',
       Warnf (MsgCertUnreadable ''locked.pem''),
       Debugf (MsgTruststore ''/certs'')]) \<and>
   isFilesystem (OsStat ''/certs'') \<and>
   getKafkaConnection exampleEnv
     \<lparr>BrokerUrls = ''kafka:9092'', User = ''alice'', Password = [], TrustStore = ''/nowhere''\<rparr>
   = (Inl (ErrTruststoreNotExist ''/nowhere''),
      [Debugf (MsgBrokers [''kafka:9092'']), OsStat ''/nowhere'']) \<and>
   getKafkaConnection exampleEnv
     \<lparr>BrokerUrls = ''bad-broker'', User = ''alice'', Password = [], TrustStore = []\<rparr>
   = (Inl (ErrBrokerFormat ''bad-broker'' ErrSections), [])"
  by (simp add: builder_defs example_defs certs_defs)

lemma getKafkaConnection_built:
  fixes env :: "('p, 'c, 'e) Env"
  assumes "buildConfig env s = (Inr (bs, cfg), blog)"
  shows "SaramaNewSyncProducer bs cfg \<in> set (snd (getKafkaConnection env s)) \<and>
         (\<forall>conn. fst (getKafkaConnection env s) = Inr conn \<longrightarrow> kafkaConfig conn = cfg)"
  using assms by (auto simp: getKafkaConnection_def Let_def split: sum.splits)

lemma verifyServerCertificate_skip:
  "verifyServerCertificate x509Verify \<lparr>RootCAs = roots, InsecureSkipVerify = True\<rparr> chain"
  by (simp add: verifyServerCertificate_def)

text \<open>
  What the builder does with a trust store that loads, for a valid broker list and complete
  SASL settings: TLS is enabled, the loaded pool is the root set of the TLS configuration
  and \<^verbatim>\<open>InsecureSkipVerify\<close> is set, so that the client accepts every chain.
  The configuration is the one handed to sarama's producer constructor and the one of the
  connection returned.
\<close>

lemma trust_store_configuration:
  fixes env :: "('p, 'c, 'e) Env"
  assumes "\<forall>b\<in>set (Split (BrokerUrls s) CHR '',''). validateBrokerUrl b = None"
    and "TrustStore s \<noteq> []"
    and "getCerts env (TrustStore s) = ((pool, None), log)"
    and "User s = [] \<or> Password s \<noteq> []"
  shows "\<exists>cfg blog.
           buildConfig env s = (Inr (Split (BrokerUrls s) CHR '','', cfg), blog) \<and>
           NetTLSEnable cfg \<and>
           NetTLSConfig cfg = Some \<lparr>RootCAs = Some pool, InsecureSkipVerify = True\<rparr> \<and>
           (\<forall>x509Verify chain.
              verifyServerCertificate x509Verify
                \<lparr>RootCAs = Some pool, InsecureSkipVerify = True\<rparr> chain) \<and>
           SaramaNewSyncProducer (Split (BrokerUrls s) CHR '','') cfg
             \<in> set (snd (getKafkaConnection env s)) \<and>
           (\<forall>conn. fst (getKafkaConnection env s) = Inr conn \<longrightarrow> kafkaConfig conn = cfg)"
proof -
  let ?bs = "Split (BrokerUrls s) CHR '',''"
  let ?tls = "\<lparr>RootCAs = Some pool, InsecureSkipVerify = True\<rparr>"
  let ?cfg1 = "(producerConfig env)\<lparr>NetTLSEnable := True, NetTLSConfig := Some ?tls\<rparr>"
  let ?log1 = "log @ [Debugf (MsgTruststore (TrustStore s))]"
  have t: "tlsSetup env s (producerConfig env) = (Inr ?cfg1, ?log1)"
    using assms(2,3) by (rule tlsSetup_loaded)
  obtain cfg log2 where sa: "saslSetup s ?cfg1 = (Inr cfg :: 'e Error + Config, log2)"
    and en: "NetTLSEnable cfg = NetTLSEnable ?cfg1"
    and tc: "NetTLSConfig cfg = NetTLSConfig ?cfg1"
    using saslSetup_consistent[OF assms(4), of ?cfg1, where ?'a = 'e] by blast
  let ?blog = "[Debugf (MsgBrokers ?bs)] @ ?log1 @ log2"
  have b: "buildConfig env s = (Inr (?bs, cfg), ?blog)"
    using buildConfig_valid[OF assms(1), of env] t sa by simp
  have tls: "NetTLSEnable cfg" "NetTLSConfig cfg = Some ?tls" using en tc by simp_all
  have skip: "\<forall>x509Verify chain. verifyServerCertificate x509Verify ?tls chain"
    by (simp add: verifyServerCertificate_skip)
  note built = getKafkaConnection_built[OF b]
  show ?thesis
    using b tls skip built by (intro exI[of _ cfg] exI[of _ ?blog]) simp
qed

text \<open>
  Claim C5. With a trust store that loads, the client configuration is to have transport
  encryption enabled and the loaded pool as its trusted root set, with host-name matching
  off and the presented certificates still verified against the pool. The code delivers
  the first two and breaks the last: for the trust store \<^verbatim>\<open>/certs\<close> of the example, TLS is
  enabled and the pool is the one certificate of \<^verbatim>\<open>/certs\<close>, but \<^verbatim>\<open>InsecureSkipVerify\<close> is
  set, and under this configuration the client accepts the chain of an intruder that
  verification against the pool rejects.
\<close>

theorem trust_pool_not_verified:
  "fst (buildConfig exampleEnv
          \<lparr>BrokerUrls = ''kafka:9092'', User = [], Password = [], TrustStore = ''/certs''\<rparr>)
     = Inr ([''kafka:9092''],
            \<lparr>ProducerReturnErrors = True, ProducerReturnSuccesses = True,
             ProducerRequiredAcks = WaitForAll, ProducerRetryMax = 5,
             NetTLSEnable = True,
             NetTLSConfig = Some \<lparr>RootCAs = Some [exampleCert], InsecureSkipVerify = True\<rparr>,
             NetSASLEnable = False, NetSASLUser = [], NetSASLPassword = []\<rparr>) \<and>
   \<not> exampleX509Verify (Some [exampleCert]) [exampleIntruder] \<and>
   verifyServerCertificate exampleX509Verify
     \<lparr>RootCAs = Some [exampleCert], InsecureSkipVerify = True\<rparr> [exampleIntruder]"
  by (simp add: builder_defs example_defs certs_defs verifyServerCertificate_def
        exampleX509Verify_def exampleIntruder_def)

end
